theory Spec2Isabelle
  imports Complex_Main "HOL-Library.Multiset" "HOL-Library.Word"
begin

section \<open>JavaScript numbers as the decision step sees them\<close>

text \<open>
  \<^verbatim>\<open>preds.dataSync()\<close> is a typed array of numbers. A number is NaN, one of the two
  infinities or a finite value; finite values are modelled as reals (every float is one),
  and the two signed zeros are one value, which is how \<^verbatim>\<open>===\<close> and \<^verbatim>\<open>>\<close> treat them.
\<close>

datatype jsnum = NaN | NegInf | Fin real | PosInf

text \<open>The comparison \<^verbatim>\<open>a < b\<close> on numbers: false as soon as one side is NaN.\<close>

fun js_less :: "jsnum \<Rightarrow> jsnum \<Rightarrow> bool" where
  "js_less NaN _ = False"
| "js_less _ NaN = False"
| "js_less NegInf NegInf = False"
| "js_less NegInf _ = True"
| "js_less (Fin a) (Fin b) = (a < b)"
| "js_less (Fin _) PosInf = True"
| "js_less (Fin _) NegInf = False"
| "js_less PosInf _ = False"

text \<open>Strict equality \<^verbatim>\<open>a === b\<close> on numbers: NaN equals nothing, itself included.\<close>

definition js_strict_eq :: "jsnum \<Rightarrow> jsnum \<Rightarrow> bool" where
  "js_strict_eq a b = (a \<noteq> NaN \<and> b \<noteq> NaN \<and> a = b)"

text \<open>
  \<^verbatim>\<open>Math.max(...data)\<close>: the running maximum starts at \<^verbatim>\<open>-Infinity\<close>, a NaN argument
  makes the result NaN, and a number replaces the running maximum only when it is
  strictly greater.
\<close>

fun Math_max_from :: "jsnum \<Rightarrow> jsnum list \<Rightarrow> jsnum" where
  "Math_max_from highest [] = highest"
| "Math_max_from highest (n # ns) =
     (if n = NaN then NaN
      else Math_max_from (if js_less highest n then n else highest) ns)"

definition Math_max :: "jsnum list \<Rightarrow> jsnum" where
  "Math_max xs = Math_max_from NegInf xs"

text \<open>
  \<^verbatim>\<open>data.indexOf(x)\<close>: the first index whose element is strictly equal to \<^verbatim>\<open>x\<close>,
  and \<^verbatim>\<open>-1\<close> when there is none.
\<close>

fun indexOf_from :: "int \<Rightarrow> jsnum list \<Rightarrow> jsnum \<Rightarrow> int" where
  "indexOf_from k [] x = - 1"
| "indexOf_from k (y # ys) x =
     (if js_strict_eq y x then k else indexOf_from (k + 1) ys x)"

definition indexOf :: "jsnum list \<Rightarrow> jsnum \<Rightarrow> int" where
  "indexOf xs x = indexOf_from 0 xs x"

text \<open>
  \<^verbatim>\<open>data[i]\<close> on a typed array: the element when \<^verbatim>\<open>i\<close> is a valid index, and
  \<^verbatim>\<open>undefined\<close> (here \<open>None\<close>) for every other integer, \<^verbatim>\<open>-1\<close> included.
\<close>

definition element_at :: "jsnum list \<Rightarrow> int \<Rightarrow> jsnum option" where
  "element_at data i =
     (if 0 \<le> i \<and> i < int (length data) then Some (data ! nat i) else None)"

section \<open>The decision step of the classification handler\<close>

text \<open>
  \<^verbatim>\<open>
  const maxIdx = data.indexOf(Math.max(...data));
  const label = maxIdx === 0 ? "uniform" : "not-uniform";
  const confidence = data[maxIdx];
  \<close>
\<close>

definition maxIdx :: "jsnum list \<Rightarrow> int" where
  "maxIdx data = indexOf data (Math_max data)"

definition label_of :: "jsnum list \<Rightarrow> string" where
  "label_of data = (if maxIdx data = 0 then ''uniform'' else ''not-uniform'')"

definition confidence_of :: "jsnum list \<Rightarrow> jsnum option" where
  "confidence_of data = element_at data (maxIdx data)"

section \<open>Documents of the two collections\<close>

text \<open>
  An identifier is the string \<^verbatim>\<open>toString()\<close> prints for it (24 hexadecimal digits), which is
  the key the handlers use; a date is its count of milliseconds; a buffer is a list of
  bytes.
\<close>

type_synonym objectId = string
type_synonym date = nat
type_synonym buffer = "8 word list"

text \<open>
  The object handed to \<^verbatim>\<open>Detection.create\<close>. \<^verbatim>\<open>confidence\<close> is \<open>None\<close> when the
  handler passes \<^verbatim>\<open>undefined\<close>.
\<close>

record draft =
  user :: objectId
  username :: string
  label :: string
  confidence :: "jsnum option"
  isCompliant :: bool
  source :: string

text \<open>
  A stored detection: the draft with the \<^verbatim>\<open>createdAt\<close> stamp the store puts on it, which
  is what the aggregation sorts on (milliseconds, so two documents can carry the same
  stamp).
\<close>

record detection = draft +
  createdAt :: date

text \<open>A student document, with the fields the export reads (\<^verbatim>\<open>s.username\<close>, ...).\<close>

record student =
  s_id :: objectId
  s_username :: string
  s_email :: string
  s_department :: string
  s_year :: string
  s_division :: string

text \<open>One output document of the \<^verbatim>\<open>$group\<close> stage.\<close>

record status =
  g_id :: objectId
  lastIsCompliant :: bool
  lastAt :: date

section \<open>What the handlers take from outside\<close>

text \<open>
  The libraries the handlers call are parameters of the model:
  \<^item> \<open>decodeImage\<close> is \<^verbatim>\<open>tf.node.decodeImage(buffer, 3)\<close>, \<open>None\<close> when it throws;
  \<^item> \<open>normalize\<close> is the chain \<^verbatim>\<open>resizeNearestNeighbor\<close>, \<^verbatim>\<open>expandDims\<close>, \<^verbatim>\<open>toFloat\<close>,
    \<^verbatim>\<open>div(tf.scalar(255))\<close> on the decoded tensor;
  \<^item> \<open>predict\<close> is \<^verbatim>\<open>model.predict(tensor)\<close> followed by \<^verbatim>\<open>dataSync()\<close>, \<open>None\<close> when
    the model throws;
  \<^item> \<open>accepts\<close> says whether \<^verbatim>\<open>Detection.create\<close> stores the draft or rejects (the
    schema that validates it is declared in \<^verbatim>\<open>models/detection\<close>);
  \<^item> \<open>sort_desc\<close> is the store's \<^verbatim>\<open>$sort: { createdAt: -1 }\<close>;
  \<^item> \<open>dateToString\<close> is how a template literal prints a date.
\<close>

record ('t, 'm) env =
  decodeImage :: "buffer \<Rightarrow> 't option"
  normalize :: "'t \<Rightarrow> 't"
  predict :: "'m \<Rightarrow> 't \<Rightarrow> jsnum list option"
  accepts :: "draft \<Rightarrow> bool"
  sort_desc :: "detection list \<Rightarrow> detection list"
  dateToString :: "date \<Rightarrow> string"

text \<open>
  What \<^verbatim>\<open>$sort: { createdAt: -1 }\<close> promises about its output \<open>ys\<close> for the input
  \<open>xs\<close>: the same documents, latest first. The order of documents with equal stamps is
  the store's choice.
\<close>

definition sort_stage :: "detection list \<Rightarrow> detection list \<Rightarrow> bool" where
  "sort_stage xs ys =
     (mset ys = mset xs \<and> sorted_wrt (\<lambda>a b. createdAt b \<le> createdAt a) ys)"

text \<open>
  Two sorts that keep that promise and differ on equal stamps only: a stable one
  (equal stamps stay in storage order) and the reversal of a stable ascending one
  (equal stamps come out in reverse storage order).
\<close>

fun insert_desc :: "detection \<Rightarrow> detection list \<Rightarrow> detection list" where
  "insert_desc d [] = [d]"
| "insert_desc d (e # es) =
     (if createdAt e < createdAt d then d # e # es else e # insert_desc d es)"

definition stable_desc :: "detection list \<Rightarrow> detection list" where
  "stable_desc xs = foldr insert_desc (rev xs) []"

definition reversed_asc :: "detection list \<Rightarrow> detection list" where
  "reversed_asc xs = rev (sort_key createdAt xs)"

section \<open>The process state\<close>

text \<open>
  \<open>model\<close> is the global \<^verbatim>\<open>let model = null\<close>; \<open>detections\<close> is the detection
  collection in insertion order; \<open>numTensors\<close> counts the tensors that classification
  calls have allocated and not disposed (their share of \<^verbatim>\<open>tf.memory().numTensors\<close>).
\<close>

record 'm state =
  model :: "'m option"
  detections :: "detection list"
  numTensors :: nat

datatype error = TypeError | DecodeError | InferenceError | StorageError

datatype response =
    Json_error nat string
  | Json_result string "jsnum option"
  | Csv string
  | History_page "detection list"

text \<open>
  A handler either sends a response, or throws out of its \<^verbatim>\<open>async\<close> body without
  having sent one. The loader only writes to the console.
\<close>

datatype outcome = Responded response | Threw error | Console string

record request =
  session_user :: objectId
  session_username :: string
  req_file :: "buffer option"
  clock :: date

section \<open>The model loader\<close>

text \<open>
  \<^verbatim>\<open>
  try { model = await tf.loadLayersModel(modelPath); console.log(...) }
  catch (err) { console.error(...) }
  \<close>
  The argument is what \<^verbatim>\<open>loadLayersModel\<close> delivers: a model, or \<open>None\<close> when it
  throws. This is the only assignment to \<^verbatim>\<open>model\<close> in the program.
\<close>

definition load_finished :: "'m option \<Rightarrow> 'm state \<Rightarrow> outcome \<times> 'm state" where
  "load_finished r st =
     (case r of
        Some m \<Rightarrow> (Console ''ML Model Loaded'', st\<lparr>model := Some m\<rparr>)
      | None \<Rightarrow> (Console ''ML Load Error'', st))"

section \<open>The classification handler\<close>

definition Detection_create ::
  "('t, 'm) env \<Rightarrow> draft \<Rightarrow> date \<Rightarrow> 'm state \<Rightarrow> error + 'm state" where
  "Detection_create env d t st =
     (if accepts env d
      then Inr (st\<lparr>detections := detections st @
             [\<lparr>user = user d, username = username d, label = label d,
               confidence = confidence d, isCompliant = isCompliant d,
               source = source d, createdAt = t\<rparr>]\<rparr>)
      else Inl StorageError)"

text \<open>
  \<^verbatim>\<open>POST /detect-image\<close>, after the \<^verbatim>\<open>requireLogin\<close> and upload middleware. The tensor
  expression allocates six tensors (the decoded image, the resized one, the expanded one,
  the float one, the scalar 255 and the quotient, which is \<^verbatim>\<open>tensor\<close>); \<^verbatim>\<open>predict\<close>
  allocates \<^verbatim>\<open>preds\<close>; \<^verbatim>\<open>tf.dispose([tensor, preds])\<close> releases two. There is no
  \<^verbatim>\<open>try\<close> in the handler: whatever a call throws leaves the handler at that point.
\<close>

definition detect_image ::
  "('t, 'm) env \<Rightarrow> request \<Rightarrow> 'm state \<Rightarrow> outcome \<times> 'm state" where
  "detect_image env req st =
     (case model st of
        None \<Rightarrow> (Responded (Json_error 500 ''Model not ready''), st)
      | Some m \<Rightarrow>
         (case req_file req of
            None \<Rightarrow> (Threw TypeError, st)
          | Some buffer \<Rightarrow>
             (case decodeImage env buffer of
                None \<Rightarrow> (Threw DecodeError, st)
              | Some img \<Rightarrow>
                 (let st1 = st\<lparr>numTensors := numTensors st + 6\<rparr>;
                      tensor = normalize env img
                  in case predict env m tensor of
                       None \<Rightarrow> (Threw InferenceError, st1)
                     | Some data \<Rightarrow>
                        (let st2 = st1\<lparr>numTensors := numTensors st1 + 1\<rparr>;
                             d = \<lparr>user = session_user req,
                                  username = session_username req,
                                  label = label_of data,
                                  confidence = confidence_of data,
                                  isCompliant = (label_of data = ''uniform''),
                                  source = ''upload''\<rparr>
                         in case Detection_create env d (clock req) st2 of
                              Inl e \<Rightarrow> (Threw e, st2)
                            | Inr st3 \<Rightarrow>
                               (Responded (Json_result (label_of data) (confidence_of data)),
                                st3\<lparr>numTensors := numTensors st3 - 2\<rparr>))))))"

section \<open>The latest detection of every student\<close>

text \<open>
  The \<^verbatim>\<open>$group\<close> stage with \<^verbatim>\<open>$first\<close> accumulators: one document for each
  \<^verbatim>\<open>user\<close>, holding the fields of the first document of that user in the order the
  stage receives them.
\<close>

fun group_first :: "detection list \<Rightarrow> status list" where
  "group_first [] = []"
| "group_first (d # ds) =
     \<lparr>g_id = user d, lastIsCompliant = isCompliant d, lastAt = createdAt d\<rparr>
       # filter (\<lambda>g. g_id g \<noteq> user d) (group_first ds)"

definition aggregate :: "('t, 'm) env \<Rightarrow> detection list \<Rightarrow> status list" where
  "aggregate env coll = group_first (sort_desc env coll)"

text \<open>\<^verbatim>\<open>detections.forEach((d) => (map[d._id.toString()] = d))\<close>\<close>

definition uniformMap :: "status list \<Rightarrow> (objectId \<rightharpoonup> status)" where
  "uniformMap ds = fold (\<lambda>d m. m(g_id d \<mapsto> d)) ds Map.empty"

definition latestPerSubject ::
  "('t, 'm) env \<Rightarrow> detection list \<Rightarrow> (objectId \<rightharpoonup> status)" where
  "latestPerSubject env coll = uniformMap (aggregate env coll)"

section \<open>The report\<close>

definition dq :: char where
  "dq = CHR 0x22"

definition nl :: char where
  "nl = CHR 0x0A"

definition csv_header :: string where
  "csv_header =
     ''Username,Email,Department,Year,Division,Uniform Status,Last Checked'' @ [nl]"

text \<open>
  \<^verbatim>\<open>info ? (info.lastIsCompliant ? "Uniform OK" : "Not in Uniform") : "No Data"\<close>
\<close>

definition status_text :: "status option \<Rightarrow> string" where
  "status_text info =
     (case info of
        Some i \<Rightarrow> (if lastIsCompliant i then ''Uniform OK'' else ''Not in Uniform'')
      | None \<Rightarrow> ''No Data'')"

text \<open>\<^verbatim>\<open>info?.lastAt || ""\<close>, printed by the template literal.\<close>

definition last_checked :: "('t, 'm) env \<Rightarrow> status option \<Rightarrow> string" where
  "last_checked env info =
     (case info of Some i \<Rightarrow> dateToString env (lastAt i) | None \<Rightarrow> [])"

text \<open>The seven values a row prints, in column order.\<close>

definition row_fields :: "('t, 'm) env \<Rightarrow> (objectId \<rightharpoonup> status) \<Rightarrow> student \<Rightarrow> string list" where
  "row_fields env m s =
     [s_username s, s_email s, s_department s, s_year s, s_division s,
      status_text (m (s_id s)), last_checked env (m (s_id s))]"

text \<open>
  The template literal of a row: every value between two double quotes, commas between
  the quoted values, a newline at the end. The values are pasted as they are.
\<close>

fun quoted_line :: "string list \<Rightarrow> string" where
  "quoted_line [] = [nl]"
| "quoted_line [f] = [dq] @ f @ [dq, nl]"
| "quoted_line (f # fs) = [dq] @ f @ [dq, CHR '',''] @ quoted_line fs"

definition csv_row :: "('t, 'm) env \<Rightarrow> (objectId \<rightharpoonup> status) \<Rightarrow> student \<Rightarrow> string" where
  "csv_row env m s = quoted_line (row_fields env m s)"

text \<open>\<^verbatim>\<open>students.forEach((s) => { ... csv += ... })\<close>\<close>

fun forEach_student ::
  "('t, 'm) env \<Rightarrow> (objectId \<rightharpoonup> status) \<Rightarrow> student list \<Rightarrow> string \<Rightarrow> string" where
  "forEach_student env m [] csv = csv"
| "forEach_student env m (s # ss) csv = forEach_student env m ss (csv @ csv_row env m s)"

definition export_csv ::
  "('t, 'm) env \<Rightarrow> student list \<Rightarrow> (objectId \<rightharpoonup> status) \<Rightarrow> string" where
  "export_csv env students m = forEach_student env m students csv_header"

text \<open>\<^verbatim>\<open>GET /teacher/students/export\<close>; \<open>students\<close> is what \<^verbatim>\<open>User.find\<close> returned.\<close>

definition export_handler ::
  "('t, 'm) env \<Rightarrow> student list \<Rightarrow> 'm state \<Rightarrow> outcome \<times> 'm state" where
  "export_handler env students st =
     (Responded (Csv (export_csv env students (latestPerSubject env (detections st)))), st)"

text \<open>
  \<^verbatim>\<open>GET /detect\<close>: the ten latest detections of the logged-in user.
\<close>

definition history_handler ::
  "('t, 'm) env \<Rightarrow> objectId \<Rightarrow> 'm state \<Rightarrow> outcome \<times> 'm state" where
  "history_handler env u st =
     (Responded (History_page
        (take 10 (sort_desc env (filter (\<lambda>d. user d = u) (detections st))))), st)"

section \<open>The process: what happens, in order\<close>

datatype 'm event =
    LoadFinished "'m option"
  | DetectImage request
  | Export "student list"
  | History objectId

fun step :: "('t, 'm) env \<Rightarrow> 'm event \<Rightarrow> 'm state \<Rightarrow> outcome \<times> 'm state" where
  "step env (LoadFinished r) st = load_finished r st"
| "step env (DetectImage req) st = detect_image env req st"
| "step env (Export students) st = export_handler env students st"
| "step env (History u) st = history_handler env u st"

fun run :: "('t, 'm) env \<Rightarrow> 'm event list \<Rightarrow> 'm state \<Rightarrow> outcome list \<times> 'm state" where
  "run env [] st = ([], st)"
| "run env (e # es) st =
     (case step env e st of
        (out, st') \<Rightarrow> (case run env es st' of (outs, st'') \<Rightarrow> (out # outs, st'')))"

section \<open>Vocabulary of the statements\<close>

text \<open>What a \<^verbatim>\<open>$group\<close> document says about the detection it was taken from.\<close>

definition summary :: "detection \<Rightarrow> status" where
  "summary d = \<lparr>g_id = user d, lastIsCompliant = isCompliant d, lastAt = createdAt d\<rparr>"

text \<open>The answer of the readiness guard.\<close>

definition not_ready :: outcome where
  "not_ready = Responded (Json_error 500 ''Model not ready'')"

fun is_load :: "'m event \<Rightarrow> bool" where
  "is_load (LoadFinished _) = True"
| "is_load _ = False"

text \<open>
  What a classification call is answered once the guard has let it through with the model
  \<open>m\<close>: a missing upload and an upload that does not decode end the call before
  inference; otherwise \<^verbatim>\<open>model.predict\<close> is consulted, and the call ends with the
  model's exception, with the store's rejection of the decision, or with the decision.
\<close>

definition classified :: "('t, 'm) env \<Rightarrow> 'm \<Rightarrow> request \<Rightarrow> outcome" where
  "classified env m req =
     (case req_file req of
        None \<Rightarrow> Threw TypeError
      | Some buf \<Rightarrow>
         (case decodeImage env buf of
            None \<Rightarrow> Threw DecodeError
          | Some img \<Rightarrow>
             (case predict env m (normalize env img) of
                None \<Rightarrow> Threw InferenceError
              | Some data \<Rightarrow>
                 if accepts env
                      \<lparr>user = session_user req, username = session_username req,
                       label = label_of data, confidence = confidence_of data,
                       isCompliant = (label_of data = ''uniform''), source = ''upload''\<rparr>
                 then Responded (Json_result (label_of data) (confidence_of data))
                 else Threw StorageError)))"

text \<open>
  The text of the report over the collection \<open>coll\<close>, character by character: the header
  line, then for each student the seven values between double quotes, separated by
  commas, and a newline.
\<close>

definition report_text :: "('t, 'm) env \<Rightarrow> detection list \<Rightarrow> student list \<Rightarrow> string" where
  "report_text env coll students =
     ''Username,Email,Department,Year,Division,Uniform Status,Last Checked'' @ [CHR 0x0A]
     @ concat (map (\<lambda>s.
         [CHR 0x22] @ s_username s @ [CHR 0x22, CHR '','', CHR 0x22]
         @ s_email s @ [CHR 0x22, CHR '','', CHR 0x22]
         @ s_department s @ [CHR 0x22, CHR '','', CHR 0x22]
         @ s_year s @ [CHR 0x22, CHR '','', CHR 0x22]
         @ s_division s @ [CHR 0x22, CHR '','', CHR 0x22]
         @ (case latestPerSubject env coll (s_id s) of
              None \<Rightarrow> ''No Data''
            | Some info \<Rightarrow>
                if lastIsCompliant info then ''Uniform OK'' else ''Not in Uniform'')
         @ [CHR 0x22, CHR '','', CHR 0x22]
         @ (case latestPerSubject env coll (s_id s) of
              None \<Rightarrow> []
            | Some info \<Rightarrow> dateToString env (lastAt info))
         @ [CHR 0x22, CHR 0x0A]) students)"

text \<open>
  What an event is answered when the global \<^verbatim>\<open>model\<close> holds \<open>r\<close> and the detection
  collection is \<open>coll\<close>. A classification call is answered "Model not ready" when \<open>r\<close>
  is \<open>None\<close>, and as \<open>classified\<close> says when \<open>r\<close> is a model. The export is answered
  with the report over \<open>coll\<close> and the history page with the ten latest detections of
  the user in \<open>coll\<close>, whatever \<open>r\<close> is. The loader writes its line to the console.
\<close>

fun answer :: "('t, 'm) env \<Rightarrow> 'm option \<Rightarrow> detection list \<Rightarrow> 'm event \<Rightarrow> outcome" where
  "answer env None coll (DetectImage req) = Responded (Json_error 500 ''Model not ready'')"
| "answer env (Some m) coll (DetectImage req) = classified env m req"
| "answer env r coll (Export students) = Responded (Csv (report_text env coll students))"
| "answer env r coll (History u) =
     Responded (History_page (take 10 (sort_desc env (filter (\<lambda>d. user d = u) coll))))"
| "answer env r coll (LoadFinished None) = Console ''ML Load Error''"
| "answer env r coll (LoadFinished (Some m)) = Console ''ML Model Loaded''"

text \<open>The invariant of a stored detection.\<close>

definition consistent :: "detection \<Rightarrow> bool" where
  "consistent d = (isCompliant d = (label d = ''uniform''))"

section \<open>A stub classifier and sample data\<close>

text \<open>
  A test environment: the decoder rejects the empty buffer and returns every other buffer
  as its own tensor; the stub model answers by the first byte; the store rejects a draft
  without a user and sorts stably.
\<close>

definition stub_predict :: "nat \<Rightarrow> buffer \<Rightarrow> jsnum list option" where
  "stub_predict m t =
     (if t = [0] then Some []
      else if t = [1] then None
      else if t = [2] then Some [Fin 0.91, Fin 0.09]
      else Some [Fin 0.23, Fin 0.77])"

definition stub_env :: "(buffer, nat) env" where
  "stub_env =
     \<lparr>decodeImage = (\<lambda>b. if b = [] then None else Some b),
      normalize = (\<lambda>t. t),
      predict = stub_predict,
      accepts = (\<lambda>d. user d \<noteq> []),
      sort_desc = stable_desc,
      dateToString = (\<lambda>t. if t < 3 then ''early'' else ''late'')\<rparr>"

definition init :: "nat state" where
  "init = \<lparr>model = None, detections = [], numTensors = 0\<rparr>"

definition ready :: "nat state" where
  "ready = \<lparr>model = Some 0, detections = [], numTensors = 0\<rparr>"

definition upload :: "objectId \<Rightarrow> buffer \<Rightarrow> date \<Rightarrow> request" where
  "upload u b t = \<lparr>session_user = u, session_username = u, req_file = Some b, clock = t\<rparr>"

definition event_at :: "objectId \<Rightarrow> bool \<Rightarrow> date \<Rightarrow> detection" where
  "event_at u c t =
     \<lparr>user = u, username = u,
      label = (if c then ''uniform'' else ''not-uniform''),
      confidence = Some (Fin 0.5), isCompliant = c, source = ''upload'', createdAt = t\<rparr>"

definition pupil :: "objectId \<Rightarrow> string \<Rightarrow> student" where
  "pupil i n =
     \<lparr>s_id = i, s_username = n, s_email = ''e'', s_department = ''d'',
      s_year = ''1'', s_division = ''A''\<rparr>"

section \<open>The decision step picks the first maximum\<close>

lemma Math_max_from_Fin:
  "Math_max_from (Fin h) (map Fin ps) = Fin (fold max ps h)"
proof (induction ps arbitrary: h)
  case Nil
  then show ?case by simp
next
  case (Cons p ps)
  have "(if h < p then p else h) = max p h" by (simp add: max_def)
  with Cons show ?case by simp
qed

lemma Math_max_Fin:
  assumes "ps \<noteq> []"
  shows "Math_max (map Fin ps) = Fin (Max (set ps))"
proof -
  from assms obtain p qs where ps: "ps = p # qs" by (cases ps) auto
  have "Math_max (map Fin ps) = Fin (fold max qs p)"
    by (simp add: Math_max_def ps Math_max_from_Fin)
  also have "fold max qs p = Max (set ps)"
    unfolding ps by (rule Max.set_eq_fold [symmetric])
  finally show ?thesis .
qed

lemma indexOf_from_Fin:
  assumes "m \<in> set ps"
  shows "\<exists>i<length ps. indexOf_from k (map Fin ps) (Fin m) = k + int i
           \<and> ps ! i = m \<and> (\<forall>j<i. ps ! j \<noteq> m)"
  using assms
proof (induction ps arbitrary: k)
  case Nil
  then show ?case by simp
next
  case (Cons p ps)
  show ?case
  proof (cases "p = m")
    case True
    then show ?thesis by (auto simp: js_strict_eq_def intro!: exI[of _ 0])
  next
    case False
    with Cons.prems have "m \<in> set ps" by simp
    from Cons.IH[OF this, of "k + 1"] obtain i where i: "i < length ps"
      "indexOf_from (k + 1) (map Fin ps) (Fin m) = k + 1 + int i" "ps ! i = m"
      "\<forall>j<i. ps ! j \<noteq> m" by blast
    have "\<forall>j<Suc i. (p # ps) ! j \<noteq> m"
      using False i(4) by (auto simp: nth_Cons split: nat.splits)
    with i False show ?thesis
      by (intro exI[of _ "Suc i"]) (simp add: js_strict_eq_def)
  qed
qed

text \<open>
  Claim C2. For a non-empty vector of probabilities \<open>ps\<close> (finite numbers), the decision
  step chooses an index \<open>i\<close> of the vector such that no entry is greater than the entry
  at \<open>i\<close>, every entry before \<open>i\<close> is strictly smaller (so among equal maxima the lowest
  index is taken), the confidence is the entry at \<open>i\<close> as it stands, and the label is
  that of index \<open>i\<close>: "uniform" for index 0 and "not-uniform" for every other index.
\<close>

theorem decide_argmax_lowest:
  assumes "ps \<noteq> []"
  shows "\<exists>i<length ps.
           maxIdx (map Fin ps) = int i
         \<and> (\<forall>j<length ps. ps ! j \<le> ps ! i)
         \<and> (\<forall>j<i. ps ! j < ps ! i)
         \<and> confidence_of (map Fin ps) = Some (Fin (ps ! i))
         \<and> label_of (map Fin ps) = (if i = 0 then ''uniform'' else ''not-uniform'')"
proof -
  let ?m = "Max (set ps)"
  from assms have mem: "?m \<in> set ps" by simp
  from indexOf_from_Fin[OF mem, of 0] obtain i where i: "i < length ps"
    "indexOf_from 0 (map Fin ps) (Fin ?m) = int i" "ps ! i = ?m" "\<forall>j<i. ps ! j \<noteq> ?m"
    by auto
  have idx: "maxIdx (map Fin ps) = int i"
    using i(2) assms by (simp add: maxIdx_def indexOf_def Math_max_Fin)
  have le: "\<forall>j<length ps. ps ! j \<le> ps ! i"
    using i(3) by simp
  have less: "\<forall>j<i. ps ! j < ps ! i"
  proof (intro allI impI)
    fix j assume "j < i"
    with i(1) i(4) le have "ps ! j \<noteq> ps ! i" "ps ! j \<le> ps ! i" using i(3) by auto
    then show "ps ! j < ps ! i" by simp
  qed
  have conf: "confidence_of (map Fin ps) = Some (Fin (ps ! i))"
    using i(1) by (simp add: confidence_of_def idx element_at_def)
  have lab: "label_of (map Fin ps) = (if i = 0 then ''uniform'' else ''not-uniform'')"
    by (simp add: label_of_def idx)
  from i(1) idx le less conf lab show ?thesis by blast
qed

text \<open>
  The tie of the specification, \<^verbatim>\<open>[0.5, 0.5]\<close>: the theorem leaves index 0 as the only
  choice, so the label is "uniform" and the confidence is 0.5.
\<close>

theorem decide_argmax_lowest_witness:
  "[0.5, 0.5 :: real] \<noteq> []
   \<and> maxIdx [Fin 0.5, Fin 0.5] = 0
   \<and> label_of [Fin 0.5, Fin 0.5] = ''uniform''
   \<and> confidence_of [Fin 0.5, Fin 0.5] = Some (Fin 0.5)"
proof -
  have ne: "[0.5, 0.5 :: real] \<noteq> []" by simp
  from decide_argmax_lowest [OF ne] obtain i where i: "i < 2"
    "maxIdx [Fin 0.5, Fin 0.5] = int i"
    "\<forall>j<i. [0.5, 0.5 :: real] ! j < [0.5, 0.5] ! i"
    "confidence_of [Fin 0.5, Fin 0.5] = Some (Fin ([0.5, 0.5] ! i))"
    "label_of [Fin 0.5, Fin 0.5] = (if i = 0 then ''uniform'' else ''not-uniform'')"
    by auto
  have "i = 0"
  proof (rule ccontr)
    assume "i \<noteq> 0"
    with i(1) have "i = 1" by simp
    with i(3) have "[0.5, 0.5 :: real] ! 0 < [0.5, 0.5] ! 1" by blast
    then show False by simp
  qed
  with i ne show ?thesis by simp
qed

section \<open>The aggregation reports the first document the sort delivers\<close>

lemma event_at_fields [simp]:
  "user (event_at u c t) = u" "isCompliant (event_at u c t) = c"
  "createdAt (event_at u c t) = t"
  by (simp_all add: event_at_def)

lemma fold_upd_other:
  "s \<notin> g_id ` set gs \<Longrightarrow> fold (\<lambda>d m. m(g_id d \<mapsto> d)) gs m s = m s"
  by (induction gs arbitrary: m) auto

lemma fold_upd_member:
  "distinct (map g_id gs) \<Longrightarrow> g \<in> set gs \<Longrightarrow>
   fold (\<lambda>d m. m(g_id d \<mapsto> d)) gs m (g_id g) = Some g"
proof (induction gs arbitrary: m)
  case Nil
  then show ?case by simp
next
  case (Cons a gs)
  show ?case
  proof (cases "g = a")
    case True
    with Cons.prems have "g_id a \<notin> g_id ` set gs" by simp
    then have "fold (\<lambda>d m. m(g_id d \<mapsto> d)) gs (m(g_id a \<mapsto> a)) (g_id a)
        = (m(g_id a \<mapsto> a)) (g_id a)"
      by (rule fold_upd_other)
    with True show ?thesis by (simp only: fold_simps comp_apply fun_upd_same)
  next
    case False
    with Cons show ?thesis by simp
  qed
qed

lemma g_id_group_first: "g_id ` set (group_first ds) = user ` set ds"
proof (induction ds)
  case Nil
  then show ?case by simp
next
  case (Cons d ds)
  have "g_id ` {g \<in> set (group_first ds). g_id g \<noteq> user d}
      = g_id ` set (group_first ds) - {user d}"
    by auto
  with Cons show ?case by auto
qed

lemma distinct_group_first: "distinct (map g_id (group_first ds))"
  by (induction ds) (auto simp: distinct_map_filter)

lemma find_filter_implied:
  "(\<And>x. P x \<Longrightarrow> Q x) \<Longrightarrow> find P (filter Q xs) = find P xs"
  by (induction xs) auto

lemma find_group_first:
  "find (\<lambda>g. g_id g = s) (group_first ds) = map_option summary (find (\<lambda>d. user d = s) ds)"
proof (induction ds)
  case Nil
  then show ?case by simp
next
  case (Cons d ds)
  show ?case
  proof (cases "user d = s")
    case True
    then show ?thesis by (simp add: summary_def)
  next
    case False
    then have "find (\<lambda>g. g_id g = s) (filter (\<lambda>g. g_id g \<noteq> user d) (group_first ds))
        = find (\<lambda>g. g_id g = s) (group_first ds)"
      by (intro find_filter_implied) auto
    with False Cons show ?thesis by simp
  qed
qed

lemma uniformMap_group_first:
  "uniformMap (group_first ds) s = map_option summary (find (\<lambda>d. user d = s) ds)"
proof (cases "find (\<lambda>d. user d = s) ds")
  case None
  then have "s \<notin> user ` set ds" by (auto simp: find_None_iff)
  then have "s \<notin> g_id ` set (group_first ds)" by (simp add: g_id_group_first)
  with None show ?thesis by (simp add: uniformMap_def fold_upd_other)
next
  case (Some d)
  then have "find (\<lambda>g. g_id g = s) (group_first ds) = Some (summary d)"
    by (simp add: find_group_first)
  then have "summary d \<in> set (group_first ds)" "g_id (summary d) = s"
    by (auto simp: find_Some_iff)
  with fold_upd_member[OF distinct_group_first, of "summary d" ds Map.empty] Some
  show ?thesis by (simp add: uniformMap_def)
qed

lemma latest_is_first_delivered:
  "latestPerSubject env coll s =
     map_option summary (find (\<lambda>d. user d = s) (sort_desc env coll))"
  by (simp add: latestPerSubject_def aggregate_def uniformMap_group_first)

lemma find_sorted_latest:
  assumes "sorted_wrt (\<lambda>a b. createdAt b \<le> createdAt a) ys"
      and "find (\<lambda>d. user d = s) ys = Some d"
      and "e \<in> set ys" and "user e = s"
    shows "createdAt e \<le> createdAt d"
  using assms
proof (induction ys)
  case Nil
  then show ?case by simp
next
  case (Cons y ys)
  show ?case
  proof (cases "user y = s")
    case True
    with Cons.prems(2) have "d = y" by simp
    with Cons.prems(1,3) show ?thesis by auto
  next
    case False
    with Cons.prems have "e \<in> set ys" "find (\<lambda>d. user d = s) ys = Some d" by auto
    with Cons show ?thesis by simp
  qed
qed

lemma reversed_asc_sort_stage: "sort_stage xs (reversed_asc xs)"
proof -
  have "sorted (map createdAt (sort_key createdAt xs))" by simp
  then have "sorted_wrt (\<lambda>a b. createdAt a \<le> createdAt b) (sort_key createdAt xs)"
    by (simp only: sorted_map)
  then have "sorted_wrt (\<lambda>a b. createdAt b \<le> createdAt a) (rev (sort_key createdAt xs))"
    by (simp only: sorted_wrt_rev)
  then show ?thesis by (simp add: sort_stage_def reversed_asc_def)
qed

lemma mset_insert_desc: "mset (insert_desc d es) = add_mset d (mset es)"
  by (induction es) simp_all

lemma set_insert_desc: "set (insert_desc d es) = insert d (set es)"
  by (induction es) auto

lemma sorted_insert_desc:
  "sorted_wrt (\<lambda>a b. createdAt b \<le> createdAt a) es \<Longrightarrow>
   sorted_wrt (\<lambda>a b. createdAt b \<le> createdAt a) (insert_desc d es)"
proof (induction es)
  case Nil
  then show ?case by simp
next
  case (Cons e es)
  show ?case
  proof (cases "createdAt e < createdAt d")
    case True
    with Cons.prems show ?thesis by fastforce
  next
    case False
    with Cons show ?thesis by (auto simp: set_insert_desc)
  qed
qed

lemma foldr_insert_desc:
  "mset (foldr insert_desc ys []) = mset ys
   \<and> sorted_wrt (\<lambda>a b. createdAt b \<le> createdAt a) (foldr insert_desc ys [])"
  by (induction ys) (simp_all add: mset_insert_desc sorted_insert_desc)

lemma stable_desc_sort_stage: "sort_stage xs (stable_desc xs)"
  using foldr_insert_desc [of "rev xs"] by (simp add: sort_stage_def stable_desc_def)

lemma latest_characterised:
  assumes "sort_stage coll (sort_desc env coll)"
  shows "if (\<exists>d\<in>set coll. user d = s)
         then (\<exists>d\<in>set coll. user d = s
                 \<and> (\<forall>e\<in>set coll. user e = s \<longrightarrow> createdAt e \<le> createdAt d)
                 \<and> latestPerSubject env coll s = Some (summary d))
         else latestPerSubject env coll s = None"
proof -
  let ?ys = "sort_desc env coll"
  from assms have set_eq: "set ?ys = set coll"
    by (metis sort_stage_def set_mset_mset)
  from assms have sorted: "sorted_wrt (\<lambda>a b. createdAt b \<le> createdAt a) ?ys"
    by (simp add: sort_stage_def)
  show ?thesis
  proof (cases "find (\<lambda>d. user d = s) ?ys")
    case None
    then have "\<not> (\<exists>d\<in>set coll. user d = s)"
      using set_eq by (auto simp: find_None_iff)
    with None show ?thesis by (simp add: latest_is_first_delivered)
  next
    case (Some d)
    then have d: "d \<in> set coll" "user d = s"
      using set_eq by (auto simp: find_Some_iff)
    have "\<forall>e\<in>set coll. user e = s \<longrightarrow> createdAt e \<le> createdAt d"
      using find_sorted_latest[OF sorted Some] set_eq by blast
    moreover have "latestPerSubject env coll s = Some (summary d)"
      using Some by (simp add: latest_is_first_delivered)
    ultimately show ?thesis using d by auto
  qed
qed

text \<open>
  Claim C1. Let the store's sort keep its promise on the collection. A subject without a
  detection is absent from the map. A subject with detections is mapped to the summary of
  one of its detections whose stamp no other detection of the subject exceeds. The order
  in which the collection is stored does not matter: for any other listing of the same
  documents, sorted by any store that keeps the promise, the reported stamp is the same,
  and the whole report is the same when no two detections of the subject share a stamp.
\<close>

theorem latest_per_subject:
  assumes "sort_stage coll (sort_desc env coll)"
      and "mset coll' = mset coll"
      and "sort_stage coll' (sort_desc env' coll')"
  shows "(if (\<exists>d\<in>set coll. user d = s)
          then (\<exists>d\<in>set coll. user d = s
                  \<and> (\<forall>e\<in>set coll. user e = s \<longrightarrow> createdAt e \<le> createdAt d)
                  \<and> latestPerSubject env coll s = Some (summary d))
          else latestPerSubject env coll s = None)
       \<and> map_option lastAt (latestPerSubject env' coll' s)
           = map_option lastAt (latestPerSubject env coll s)
       \<and> ((\<forall>d\<in>set coll. \<forall>e\<in>set coll.
              user d = s \<and> user e = s \<and> createdAt d = createdAt e \<longrightarrow> d = e)
            \<longrightarrow> latestPerSubject env' coll' s = latestPerSubject env coll s)"
proof -
  from assms(2) have set_eq: "set coll' = set coll" by (rule mset_eq_setD)
  note c = latest_characterised [OF assms(1), of s]
  note c' = latest_characterised [OF assms(3), of s]
  show ?thesis
  proof (cases "\<exists>d\<in>set coll. user d = s")
    case False
    with c c' set_eq show ?thesis by simp
  next
    case True
    with c obtain d where d: "d \<in> set coll" "user d = s"
      "\<forall>e\<in>set coll. user e = s \<longrightarrow> createdAt e \<le> createdAt d"
      "latestPerSubject env coll s = Some (summary d)" by auto
    from True c' set_eq obtain d' where d': "d' \<in> set coll" "user d' = s"
      "\<forall>e\<in>set coll. user e = s \<longrightarrow> createdAt e \<le> createdAt d'"
      "latestPerSubject env' coll' s = Some (summary d')" by auto
    from d d' have "createdAt d' \<le> createdAt d" "createdAt d \<le> createdAt d'" by blast+
    then have same: "createdAt d = createdAt d'" by simp
    have at: "map_option lastAt (latestPerSubject env' coll' s)
           = map_option lastAt (latestPerSubject env coll s)"
      using d(4) d'(4) same by (simp add: summary_def)
    have uniq: "(\<forall>d\<in>set coll. \<forall>e\<in>set coll.
              user d = s \<and> user e = s \<and> createdAt d = createdAt e \<longrightarrow> d = e)
            \<longrightarrow> latestPerSubject env' coll' s = latestPerSubject env coll s"
    proof
      assume "\<forall>d\<in>set coll. \<forall>e\<in>set coll.
              user d = s \<and> user e = s \<and> createdAt d = createdAt e \<longrightarrow> d = e"
      with d(1,2) d'(1,2) same have "d = d'" by blast
      with d(4) d'(4) show "latestPerSubject env' coll' s = latestPerSubject env coll s"
        by simp
    qed
    from c at uniq show ?thesis by simp
  qed
qed

text \<open>
  The round trip of the specification: a compliant detection at time 1, a non-compliant
  one at time 2, stored in either order; the subject \<^verbatim>\<open>S0\<close> has no detection.
\<close>

theorem latest_per_subject_witness:
  "sort_stage [event_at ''S1'' True 1, event_at ''S1'' False 2]
     (sort_desc stub_env [event_at ''S1'' True 1, event_at ''S1'' False 2])
   \<and> mset [event_at ''S1'' False 2, event_at ''S1'' True 1]
       = mset [event_at ''S1'' True 1, event_at ''S1'' False 2]
   \<and> sort_stage [event_at ''S1'' False 2, event_at ''S1'' True 1]
       (sort_desc (stub_env\<lparr>sort_desc := reversed_asc\<rparr>)
          [event_at ''S1'' False 2, event_at ''S1'' True 1])
   \<and> latestPerSubject stub_env [event_at ''S1'' True 1, event_at ''S1'' False 2] ''S1''
       = Some \<lparr>g_id = ''S1'', lastIsCompliant = False, lastAt = 2\<rparr>
   \<and> latestPerSubject (stub_env\<lparr>sort_desc := reversed_asc\<rparr>)
        [event_at ''S1'' False 2, event_at ''S1'' True 1] ''S1''
       = Some \<lparr>g_id = ''S1'', lastIsCompliant = False, lastAt = 2\<rparr>
   \<and> latestPerSubject stub_env [event_at ''S1'' True 1, event_at ''S1'' False 2] ''S0''
       = None"
proof -
  let ?a = "event_at ''S1'' True 1" and ?b = "event_at ''S1'' False 2"
  let ?env' = "stub_env\<lparr>sort_desc := reversed_asc\<rparr>"
  have st: "sort_stage [?a, ?b] (sort_desc stub_env [?a, ?b])"
    by (simp add: sort_stage_def stub_env_def stable_desc_def)
  have ms: "mset [?b, ?a] = mset [?a, ?b]" by simp
  have st': "sort_stage [?b, ?a] (sort_desc ?env' [?b, ?a])"
    by (simp add: reversed_asc_sort_stage)
  have uniq: "\<forall>d\<in>set [?a, ?b]. \<forall>e\<in>set [?a, ?b].
      user d = ''S1'' \<and> user e = ''S1'' \<and> createdAt d = createdAt e \<longrightarrow> d = e"
    by simp
  from latest_per_subject [OF st ms st', of "''S1''"]
  have one: "latestPerSubject stub_env [?a, ?b] ''S1''
      = Some \<lparr>g_id = ''S1'', lastIsCompliant = False, lastAt = 2\<rparr>"
    by (auto simp: summary_def)
  from latest_per_subject [OF st ms st', of "''S1''"] uniq
  have two: "latestPerSubject ?env' [?b, ?a] ''S1'' = latestPerSubject stub_env [?a, ?b] ''S1''"
    by blast
  from latest_per_subject [OF st ms st', of "''S0''"]
  have three: "latestPerSubject stub_env [?a, ?b] ''S0'' = None"
    by simp
  from st ms st' one two three show ?thesis by simp
qed

section \<open>Equal stamps\<close>

text \<open>
  Claim C5, as the code has it. When two detections of a subject share the latest stamp
  of that subject, the report is the summary of a detection of the subject with that
  stamp, namely the first document of the subject in the output of the store's sort.
  Nothing in the pipeline refers to the order of insertion.
\<close>

theorem tie_goes_to_first_delivered:
  assumes "sort_stage coll (sort_desc env coll)"
      and "d1 \<in> set coll" and "d2 \<in> set coll"
      and "user d1 = s" and "user d2 = s"
      and "createdAt d1 = createdAt d2"
      and "\<forall>e\<in>set coll. user e = s \<longrightarrow> createdAt e \<le> createdAt d1"
  shows "\<exists>d\<in>set coll. user d = s \<and> createdAt d = createdAt d1
           \<and> find (\<lambda>e. user e = s) (sort_desc env coll) = Some d
           \<and> latestPerSubject env coll s = Some (summary d)"
proof -
  let ?ys = "sort_desc env coll"
  from assms(1) have set_eq: "set ?ys = set coll"
    by (metis sort_stage_def set_mset_mset)
  from assms(1) have sorted: "sorted_wrt (\<lambda>a b. createdAt b \<le> createdAt a) ?ys"
    by (simp add: sort_stage_def)
  from assms(2,4) set_eq have "find (\<lambda>e. user e = s) ?ys \<noteq> None"
    by (auto simp: find_None_iff)
  then obtain d where found: "find (\<lambda>e. user e = s) ?ys = Some d" by auto
  then have d: "d \<in> set coll" "user d = s"
    using set_eq by (auto simp: find_Some_iff)
  have "createdAt d1 \<le> createdAt d"
    using find_sorted_latest[OF sorted found] assms(2,4) set_eq by blast
  moreover have "createdAt d \<le> createdAt d1"
    using assms(7) d by blast
  ultimately have "createdAt d = createdAt d1" by simp
  moreover have "latestPerSubject env coll s = Some (summary d)"
    using found by (simp add: latest_is_first_delivered)
  ultimately show ?thesis using d found by blast
qed

text \<open>
  Two documents of one subject with the same stamp 5, the compliant one appended first:
  the stub store's stable sort delivers the first of them first.
\<close>

theorem tie_goes_to_first_delivered_witness:
  "sort_stage [event_at ''S1'' True 5, event_at ''S1'' False 5]
     (sort_desc stub_env [event_at ''S1'' True 5, event_at ''S1'' False 5])
   \<and> lastAt (the (latestPerSubject stub_env
        [event_at ''S1'' True 5, event_at ''S1'' False 5] ''S1'')) = 5"
proof -
  let ?a = "event_at ''S1'' True 5" and ?b = "event_at ''S1'' False 5"
  have st: "sort_stage [?a, ?b] (sort_desc stub_env [?a, ?b])"
    by (simp add: sort_stage_def stub_env_def stable_desc_def)
  have mx: "\<forall>e\<in>set [?a, ?b]. user e = ''S1'' \<longrightarrow> createdAt e \<le> createdAt ?a"
    by simp
  have "\<exists>d\<in>set [?a, ?b]. user d = ''S1'' \<and> createdAt d = createdAt ?a
           \<and> find (\<lambda>e. user e = ''S1'') (sort_desc stub_env [?a, ?b]) = Some d
           \<and> latestPerSubject stub_env [?a, ?b] ''S1'' = Some (summary d)"
    by (rule tie_goes_to_first_delivered [OF st _ _ _ _ _ mx, of ?b]) simp_all
  then obtain d where "createdAt d = createdAt ?a"
    "latestPerSubject stub_env [?a, ?b] ''S1'' = Some (summary d)"
    by blast
  then have "lastAt (the (latestPerSubject stub_env [?a, ?b] ''S1'')) = 5"
    by (simp add: summary_def)
  with st show ?thesis by simp
qed

text \<open>
  The claim as stated fails. The same two documents, under two sorts that both deliver
  latest first: the stable one reports the document appended first, the other one the
  document appended last, and the two reports differ. So the winner is not fixed by the
  pipeline, and it need not be the most recently appended document.
\<close>

theorem tie_winner_not_last_appended:
  "sort_stage [event_at ''S1'' True 5, event_at ''S1'' False 5]
     (sort_desc stub_env [event_at ''S1'' True 5, event_at ''S1'' False 5])
   \<and> sort_stage [event_at ''S1'' True 5, event_at ''S1'' False 5]
     (sort_desc (stub_env\<lparr>sort_desc := reversed_asc\<rparr>)
        [event_at ''S1'' True 5, event_at ''S1'' False 5])
   \<and> last [event_at ''S1'' True 5, event_at ''S1'' False 5] = event_at ''S1'' False 5
   \<and> latestPerSubject stub_env [event_at ''S1'' True 5, event_at ''S1'' False 5] ''S1''
       = Some (summary (event_at ''S1'' True 5))
   \<and> latestPerSubject (stub_env\<lparr>sort_desc := reversed_asc\<rparr>)
        [event_at ''S1'' True 5, event_at ''S1'' False 5] ''S1''
       = Some (summary (event_at ''S1'' False 5))
   \<and> summary (event_at ''S1'' True 5) \<noteq> summary (event_at ''S1'' False 5)"
  by (simp add: sort_stage_def stub_env_def stable_desc_def reversed_asc_def
      latest_is_first_delivered summary_def)

section \<open>The report has one row for each student, in order\<close>

lemma forEach_student_concat:
  "forEach_student env m ss csv = csv @ concat (map (csv_row env m) ss)"
  by (induction ss arbitrary: csv) simp_all

lemma quoted_line_seven:
  "quoted_line [a, b, c, d, e, f, g] =
     [CHR 0x22] @ a @ [CHR 0x22, CHR '','', CHR 0x22]
     @ b @ [CHR 0x22, CHR '','', CHR 0x22]
     @ c @ [CHR 0x22, CHR '','', CHR 0x22]
     @ d @ [CHR 0x22, CHR '','', CHR 0x22]
     @ e @ [CHR 0x22, CHR '','', CHR 0x22]
     @ f @ [CHR 0x22, CHR '','', CHR 0x22]
     @ g @ [CHR 0x22, CHR 0x0A]"
  by (simp add: dq_def nl_def)

lemma csv_row_text:
  "csv_row env m s =
     [CHR 0x22] @ s_username s @ [CHR 0x22, CHR '','', CHR 0x22]
     @ s_email s @ [CHR 0x22, CHR '','', CHR 0x22]
     @ s_department s @ [CHR 0x22, CHR '','', CHR 0x22]
     @ s_year s @ [CHR 0x22, CHR '','', CHR 0x22]
     @ s_division s @ [CHR 0x22, CHR '','', CHR 0x22]
     @ (case m (s_id s) of
          None \<Rightarrow> ''No Data''
        | Some info \<Rightarrow> if lastIsCompliant info then ''Uniform OK'' else ''Not in Uniform'')
     @ [CHR 0x22, CHR '','', CHR 0x22]
     @ (case m (s_id s) of None \<Rightarrow> [] | Some info \<Rightarrow> dateToString env (lastAt info))
     @ [CHR 0x22, CHR 0x0A]"
proof -
  have st: "status_text (m (s_id s)) =
      (case m (s_id s) of
          None \<Rightarrow> ''No Data''
        | Some info \<Rightarrow> if lastIsCompliant info then ''Uniform OK'' else ''Not in Uniform'')"
    by (simp add: status_text_def split: option.splits)
  have lc: "last_checked env (m (s_id s)) =
      (case m (s_id s) of None \<Rightarrow> [] | Some info \<Rightarrow> dateToString env (lastAt info))"
    by (simp add: last_checked_def split: option.splits)
  show ?thesis
    unfolding csv_row_def row_fields_def quoted_line_seven st lc ..
qed

lemma export_handler_text:
  "export_handler env students st =
     (Responded (Csv (report_text env (detections st) students)), st)"
proof -
  let ?m = "latestPerSubject env (detections st)"
  have rows: "map (csv_row env ?m) students = map (\<lambda>s.
         [CHR 0x22] @ s_username s @ [CHR 0x22, CHR '','', CHR 0x22]
         @ s_email s @ [CHR 0x22, CHR '','', CHR 0x22]
         @ s_department s @ [CHR 0x22, CHR '','', CHR 0x22]
         @ s_year s @ [CHR 0x22, CHR '','', CHR 0x22]
         @ s_division s @ [CHR 0x22, CHR '','', CHR 0x22]
         @ (case ?m (s_id s) of
              None \<Rightarrow> ''No Data''
            | Some info \<Rightarrow>
                if lastIsCompliant info then ''Uniform OK'' else ''Not in Uniform'')
         @ [CHR 0x22, CHR '','', CHR 0x22]
         @ (case ?m (s_id s) of
              None \<Rightarrow> []
            | Some info \<Rightarrow> dateToString env (lastAt info))
         @ [CHR 0x22, CHR 0x0A]) students"
    by (rule map_cong [OF refl]) (rule csv_row_text)
  have "export_csv env students ?m = report_text env (detections st) students"
    unfolding export_csv_def forEach_student_concat report_text_def csv_header_def nl_def rows
    by (simp only: append_assoc)
  then show ?thesis by (simp add: export_handler_def)
qed

text \<open>
  Claim C8. The export answers with exactly this text, and leaves the state as it is: the
  header line, then one line for each student in the order of the list it was given, and
  nothing else. The line of a student holds, between double quotes and separated by
  commas, the user name, e-mail, department, year and division, then "No Data" when the
  student has no entry in the map of latest detections, "Uniform OK" when the entry's
  \<^verbatim>\<open>lastIsCompliant\<close> is true and "Not in Uniform" when it is false, then the date of
  the entry (nothing when there is none), and ends with a newline.
\<close>

theorem report_rows_in_order:
  "export_handler env students st =
     (Responded (Csv (
        ''Username,Email,Department,Year,Division,Uniform Status,Last Checked'' @ [CHR 0x0A]
        @ concat (map (\<lambda>s.
            [CHR 0x22] @ s_username s @ [CHR 0x22, CHR '','', CHR 0x22]
            @ s_email s @ [CHR 0x22, CHR '','', CHR 0x22]
            @ s_department s @ [CHR 0x22, CHR '','', CHR 0x22]
            @ s_year s @ [CHR 0x22, CHR '','', CHR 0x22]
            @ s_division s @ [CHR 0x22, CHR '','', CHR 0x22]
            @ (case latestPerSubject env (detections st) (s_id s) of
                 None \<Rightarrow> ''No Data''
               | Some info \<Rightarrow>
                   if lastIsCompliant info then ''Uniform OK'' else ''Not in Uniform'')
            @ [CHR 0x22, CHR '','', CHR 0x22]
            @ (case latestPerSubject env (detections st) (s_id s) of
                 None \<Rightarrow> []
               | Some info \<Rightarrow> dateToString env (lastAt info))
            @ [CHR 0x22, CHR 0x0A]) students))), st)"
  unfolding export_handler_text report_text_def ..

text \<open>
  The scenario of the specification: \<^verbatim>\<open>S1\<close> without a detection, \<^verbatim>\<open>S2\<close> last seen
  non-compliant; the text has the header and the two lines in that order.
\<close>

theorem report_rows_in_order_witness:
  "export_handler stub_env [pupil ''S1'' ''ann'', pupil ''S2'' ''bob'']
     (ready\<lparr>detections := [event_at ''S2'' True 2, event_at ''S2'' False 3]\<rparr>) =
     (Responded (Csv (
        ''Username,Email,Department,Year,Division,Uniform Status,Last Checked''
        @ [CHR 0x0A] @ [CHR 0x22] @ ''ann'' @ [CHR 0x22] @ '','' @ [CHR 0x22] @ ''e''
        @ [CHR 0x22] @ '','' @ [CHR 0x22] @ ''d'' @ [CHR 0x22] @ '','' @ [CHR 0x22]
        @ ''1'' @ [CHR 0x22] @ '','' @ [CHR 0x22] @ ''A'' @ [CHR 0x22] @ '',''
        @ [CHR 0x22] @ ''No Data'' @ [CHR 0x22] @ '','' @ [CHR 0x22] @ [CHR 0x22]
        @ [CHR 0x0A] @ [CHR 0x22] @ ''bob'' @ [CHR 0x22] @ '','' @ [CHR 0x22] @ ''e''
        @ [CHR 0x22] @ '','' @ [CHR 0x22] @ ''d'' @ [CHR 0x22] @ '','' @ [CHR 0x22]
        @ ''1'' @ [CHR 0x22] @ '','' @ [CHR 0x22] @ ''A'' @ [CHR 0x22] @ '',''
        @ [CHR 0x22] @ ''Not in Uniform'' @ [CHR 0x22] @ '','' @ [CHR 0x22] @ ''late''
        @ [CHR 0x22] @ [CHR 0x0A])),
      ready\<lparr>detections := [event_at ''S2'' True 2, event_at ''S2'' False 3]\<rparr>)"
proof -
  let ?log = "[event_at ''S2'' True 2, event_at ''S2'' False 3]"
  have l1: "latestPerSubject stub_env ?log ''S1'' = None"
    by (simp add: latest_is_first_delivered stub_env_def stable_desc_def)
  have l2: "latestPerSubject stub_env ?log ''S2''
      = Some \<lparr>g_id = ''S2'', lastIsCompliant = False, lastAt = 3\<rparr>"
    by (simp add: latest_is_first_delivered stub_env_def stable_desc_def summary_def)
  have d: "dateToString stub_env 3 = ''late''"
    by (simp add: stub_env_def)
  from report_rows_in_order [of stub_env "[pupil ''S1'' ''ann'', pupil ''S2'' ''bob'']"
      "ready\<lparr>detections := ?log\<rparr>"]
  show ?thesis
    by (simp add: l1 l2 d pupil_def)
qed

section \<open>A double quote inside a value\<close>

text \<open>
  As long as no value contains a double quote, a line determines its values, commas inside
  the values included: the first double quote after the opening one ends the value.
\<close>

lemma quoted_line_Cons:
  "quoted_line (f # fs) = dq # f @ dq # (if fs = [] then [nl] else CHR '','' # quoted_line fs)"
  by (cases fs) simp_all

lemma quoted_line_not_Nil: "quoted_line fs \<noteq> []"
  by (cases fs) (simp_all add: quoted_line_Cons)

lemma nl_not_comma: "nl \<noteq> CHR '',''"
  by (simp add: nl_def)

lemma first_delimiter_splits:
  "x \<notin> set f \<Longrightarrow> x \<notin> set g \<Longrightarrow> f @ x # r1 = g @ x # r2 \<Longrightarrow> f = g \<and> r1 = r2"
proof (induction f arbitrary: g)
  case Nil
  then show ?case by (cases g) auto
next
  case (Cons a f)
  then show ?case by (cases g) auto
qed

lemma quoted_line_inj:
  assumes "\<forall>f\<in>set fs. dq \<notin> set f" and "\<forall>g\<in>set gs. dq \<notin> set g"
      and "quoted_line fs = quoted_line gs"
  shows "fs = gs"
  using assms
proof (induction fs arbitrary: gs)
  case Nil
  show ?case
  proof (cases gs)
    case Nil
    then show ?thesis by simp
  next
    case (Cons g gs')
    with Nil.prems(3) show ?thesis by (simp add: quoted_line_Cons dq_def nl_def)
  qed
next
  case (Cons f fs)
  show ?case
  proof (cases gs)
    case Nil
    with Cons.prems(3) show ?thesis by (simp add: quoted_line_Cons dq_def nl_def)
  next
    case gs: (Cons g gs')
    let ?r = "\<lambda>hs. if hs = [] then [nl] else CHR '','' # quoted_line hs"
    from Cons.prems(3) gs have eq: "f @ dq # ?r fs = g @ dq # ?r gs'"
      by (simp only: quoted_line_Cons list.inject)
    from Cons.prems(1,2) gs have nq: "dq \<notin> set f" "dq \<notin> set g" by simp_all
    from first_delimiter_splits [OF nq eq]
    have fg: "f = g" and rest: "?r fs = ?r gs'"
      by blast+
    have "fs = gs'"
    proof (cases "fs = []")
      case True
      with rest nl_not_comma show ?thesis by (auto split: if_splits)
    next
      case False
      with rest nl_not_comma have "gs' \<noteq> []" and "quoted_line fs = quoted_line gs'"
        by (auto split: if_splits)
      with Cons.IH[of gs'] Cons.prems(1,2) gs show ?thesis by simp
    qed
    with fg gs show ?thesis by simp
  qed
qed

text \<open>
  Claim C6 does not hold of the code. Every value is put between double quotes, which
  keeps a comma inside a value harmless, but a double quote inside a value is pasted as
  it is. The line of a value \<^verbatim>\<open>a"b\<close> closes its quotation after \<^verbatim>\<open>a\<close>, and two students
  that differ in user name and e-mail print the same line.
\<close>

theorem quote_in_field_not_escaped:
  "quoted_line [[CHR ''a'', dq, CHR ''b''], ''c'']
     = [dq, CHR ''a'', dq, CHR ''b'', dq, CHR '','', dq, CHR ''c'', dq, nl]
   \<and> csv_row stub_env Map.empty
        ((pupil ''1'' (''x'' @ [dq, CHR '','', dq] @ ''y''))\<lparr>s_email := ''z''\<rparr>)
     = csv_row stub_env Map.empty
        ((pupil ''1'' ''x'')\<lparr>s_email := ''y'' @ [dq, CHR '','', dq] @ ''z''\<rparr>)
   \<and> s_username ((pupil ''1'' (''x'' @ [dq, CHR '','', dq] @ ''y''))\<lparr>s_email := ''z''\<rparr>)
     \<noteq> s_username ((pupil ''1'' ''x'')\<lparr>s_email := ''y'' @ [dq, CHR '','', dq] @ ''z''\<rparr>)"
  by (simp add: csv_row_def row_fields_def pupil_def)

section \<open>One call of the classification handler\<close>

lemmas decide_defs =
  label_of_def confidence_of_def maxIdx_def indexOf_def Math_max_def js_strict_eq_def
  element_at_def

lemmas stub_defs =
  stub_env_def stub_predict_def upload_def ready_def init_def

lemmas handler_defs =
  detect_image_def Detection_create_def load_finished_def Let_def

lemma detect_image_not_loaded:
  "model st = None \<Longrightarrow> detect_image env req st = (not_ready, st)"
  by (simp add: detect_image_def not_ready_def)

lemma detect_image_model:
  "model (snd (detect_image env req st)) = model st"
  by (simp add: detect_image_def Detection_create_def Let_def
      split: option.splits sum.splits)

lemma detect_image_classified:
  "model st = Some m \<Longrightarrow> fst (detect_image env req st) = classified env m req"
  by (simp add: detect_image_def Detection_create_def Let_def classified_def
      split: option.splits)

lemma classified_not_turned_away:
  "classified env m req \<noteq> Responded (Json_error 500 ''Model not ready'')"
  by (simp add: classified_def split: option.splits)

lemma detect_image_appends:
  "\<exists>new. detections (snd (detect_image env req st)) = detections st @ new
       \<and> list_all consistent new"
proof (cases "detections (snd (detect_image env req st)) = detections st")
  case True
  then show ?thesis by (intro exI[of _ "[]"]) simp
next
  case False
  then obtain m buf img data where
    "detections (snd (detect_image env req st)) = detections st @
       [\<lparr>user = session_user req, username = session_username req,
         label = label_of data, confidence = confidence_of data,
         isCompliant = (label_of data = ''uniform''), source = ''upload'',
         createdAt = clock req\<rparr>]"
    by (auto simp: detect_image_def Detection_create_def Let_def
        split: option.splits sum.splits if_splits)
  then show ?thesis
    by (intro exI[of _ "[\<lparr>user = session_user req, username = session_username req,
         label = label_of data, confidence = confidence_of data,
         isCompliant = (label_of data = ''uniform''), source = ''upload'',
         createdAt = clock req\<rparr>]"]) (simp add: consistent_def)
qed

lemma stub_success:
  "detect_image stub_env (upload ''S1'' [2] 2) ready =
     (Responded (Json_result ''uniform'' (Some (Fin 0.91))),
      \<lparr>model = Some 0,
       detections = [\<lparr>user = ''S1'', username = ''S1'', label = ''uniform'',
         confidence = Some (Fin 0.91), isCompliant = True, source = ''upload'',
         createdAt = 2\<rparr>],
       numTensors = 5\<rparr>)"
  by (simp add: handler_defs stub_defs decide_defs)

text \<open>
  Claim C10. Let the model be loaded, the upload decode, the model answer with the empty
  vector, and the store accept the draft the handler then builds. The decision step does
  not throw: the index is \<open>-1\<close>, the label is "not-uniform", the confidence is
  undefined; the handler answers with that label, and one detection is appended whose
  confidence is undefined and whose \<^verbatim>\<open>isCompliant\<close> is false.
\<close>

theorem empty_vector_still_appended:
  assumes "model st = Some m"
      and "req_file req = Some buf"
      and "decodeImage env buf = Some img"
      and "predict env m (normalize env img) = Some []"
      and "accepts env \<lparr>user = session_user req, username = session_username req,
             label = ''not-uniform'', confidence = None, isCompliant = False,
             source = ''upload''\<rparr>"
  shows "maxIdx [] = - 1
       \<and> label_of [] = ''not-uniform''
       \<and> confidence_of [] = None
       \<and> fst (detect_image env req st) = Responded (Json_result ''not-uniform'' None)
       \<and> detections (snd (detect_image env req st)) = detections st @
           [\<lparr>user = session_user req, username = session_username req,
             label = ''not-uniform'', confidence = None, isCompliant = False,
             source = ''upload'', createdAt = clock req\<rparr>]"
proof -
  have i: "maxIdx [] = - 1" by (simp add: decide_defs)
  have l: "label_of [] = ''not-uniform''" by (simp add: decide_defs)
  have c: "confidence_of [] = None" by (simp add: decide_defs)
  from assms have r: "fst (detect_image env req st) = Responded (Json_result ''not-uniform'' None)"
    by (simp add: handler_defs l c)
  from assms have d: "detections (snd (detect_image env req st)) = detections st @
           [\<lparr>user = session_user req, username = session_username req,
             label = ''not-uniform'', confidence = None, isCompliant = False,
             source = ''upload'', createdAt = clock req\<rparr>]"
    by (simp add: handler_defs l c)
  from i l c r d show ?thesis by (intro conjI)
qed

text \<open>The stub model answers the upload \<^verbatim>\<open>[0]\<close> with the empty vector.\<close>

theorem empty_vector_still_appended_witness:
  "fst (detect_image stub_env (upload ''S1'' [0] 2) ready)
     = Responded (Json_result ''not-uniform'' None)
   \<and> detections (snd (detect_image stub_env (upload ''S1'' [0] 2) ready)) =
       [\<lparr>user = ''S1'', username = ''S1'', label = ''not-uniform'', confidence = None,
         isCompliant = False, source = ''upload'', createdAt = 2\<rparr>]"
proof -
  have h1: "model ready = Some 0" by (simp add: ready_def)
  have h2: "req_file (upload ''S1'' [0] 2) = Some [0]" by (simp add: upload_def)
  have h3: "decodeImage stub_env [0] = Some [0]" by (simp add: stub_env_def)
  have h4: "predict stub_env 0 (normalize stub_env [0]) = Some []"
    by (simp add: stub_env_def stub_predict_def)
  have h5: "accepts stub_env \<lparr>user = session_user (upload ''S1'' [0] 2),
      username = session_username (upload ''S1'' [0] 2), label = ''not-uniform'',
      confidence = None, isCompliant = False, source = ''upload''\<rparr>"
    by (simp add: stub_env_def upload_def)
  from empty_vector_still_appended [OF h1 h2 h3 h4 h5]
  show ?thesis by (simp add: upload_def ready_def)
qed

section \<open>An upload that does not decode\<close>

lemma decode_failure_throws:
  "model st = Some m \<Longrightarrow> req_file req = Some buf \<Longrightarrow> decodeImage env buf = None \<Longrightarrow>
   detect_image env req st = (Threw DecodeError, st)"
  by (simp add: detect_image_def)

text \<open>
  Claim C3 holds of the code only in part. When the decoder rejects the upload (here the
  empty buffer, with the model loaded), no detection is appended and nothing else of the
  state changes; but the handler sends no response: the decoder's exception leaves the
  \<^verbatim>\<open>async\<close> handler, which has no \<^verbatim>\<open>try\<close> around the call.
\<close>

theorem empty_upload_throws_without_response:
  "decodeImage stub_env [] = None
   \<and> detect_image stub_env (upload ''S1'' [] 2) ready = (Threw DecodeError, ready)"
proof -
  have d: "decodeImage stub_env [] = None" by (simp add: stub_env_def)
  have "model ready = Some 0" by (simp add: ready_def)
  moreover have "req_file (upload ''S1'' [] 2) = Some []" by (simp add: upload_def)
  ultimately have "detect_image stub_env (upload ''S1'' [] 2) ready = (Threw DecodeError, ready)"
    using d by (rule decode_failure_throws)
  with d show ?thesis by simp
qed

section \<open>Tensors that stay allocated\<close>

lemma tensors_after_decoding:
  assumes "model st = Some m" and "req_file req = Some buf" and "decodeImage env buf = Some img"
  shows "numTensors st + 5 \<le> numTensors (snd (detect_image env req st))"
  using assms
  by (simp add: handler_defs split: option.splits sum.splits)

lemma snd_run_Cons:
  "snd (run env (e # es) st) = snd (run env es (snd (step env e st)))"
  by (simp split: prod.splits)

lemma fst_run_Cons:
  "fst (run env (e # es) st) = fst (step env e st) # fst (run env es (snd (step env e st)))"
  by (simp split: prod.splits)

lemma stub_success_tensors:
  assumes "model st = Some 0"
  shows "numTensors (snd (detect_image stub_env (upload ''S1'' [2] t) st)) = numTensors st + 5"
    and "model (snd (detect_image stub_env (upload ''S1'' [2] t) st)) = Some 0"
  using assms
  by (simp_all add: handler_defs stub_env_def stub_predict_def upload_def)

lemma stub_calls_tensors:
  "model st = Some 0 \<Longrightarrow>
   numTensors (snd (run stub_env (map (\<lambda>t. DetectImage (upload ''S1'' [2] t)) ts) st))
     = numTensors st + 5 * length ts"
proof (induction ts arbitrary: st)
  case Nil
  then show ?case by simp
next
  case (Cons t ts)
  let ?st' = "snd (detect_image stub_env (upload ''S1'' [2] t) st)"
  have "snd (run stub_env (map (\<lambda>t. DetectImage (upload ''S1'' [2] t)) (t # ts)) st)
      = snd (run stub_env (map (\<lambda>t. DetectImage (upload ''S1'' [2] t)) ts) ?st')"
    by (simp only: list.map snd_run_Cons step.simps)
  moreover from stub_success_tensors[OF Cons.prems, of t]
  have "numTensors ?st' = numTensors st + 5" "model ?st' = Some 0" by simp_all
  ultimately show ?case using Cons.IH[of ?st'] by simp
qed

text \<open>
  Claim C9 does not hold of the code. \<^verbatim>\<open>tf.dispose([tensor, preds])\<close> releases two of
  the seven tensors of a call, and only on the path that reaches it. With the stub
  classifier: a successful call leaves 5 tensors allocated, a call whose model throws
  leaves 6, a call whose draft the store rejects leaves 7, and after 1000 successful
  calls 5000 tensors are outstanding.
\<close>

theorem tensors_left_allocated:
  "numTensors (snd (detect_image stub_env (upload ''S1'' [2] 2) ready)) = 5
   \<and> numTensors (snd (detect_image stub_env (upload ''S1'' [1] 2) ready)) = 6
   \<and> numTensors (snd (detect_image stub_env (upload [] [2] 2) ready)) = 7
   \<and> numTensors (snd (run stub_env
        (map (\<lambda>t. DetectImage (upload ''S1'' [2] t)) [0..<1000]) ready)) = 5000"
proof -
  have a: "numTensors (snd (detect_image stub_env (upload ''S1'' [2] 2) ready)) = 5"
    by (simp add: stub_success)
  have b: "numTensors (snd (detect_image stub_env (upload ''S1'' [1] 2) ready)) = 6"
    by (simp add: handler_defs stub_defs)
  have c: "numTensors (snd (detect_image stub_env (upload [] [2] 2) ready)) = 7"
    by (simp add: handler_defs stub_defs)
  have "model ready = Some 0" "numTensors ready = 0" by (simp_all add: ready_def)
  then have d: "numTensors (snd (run stub_env
        (map (\<lambda>t. DetectImage (upload ''S1'' [2] t)) [0..<1000]) ready)) = 5000"
    by (simp add: stub_calls_tensors)
  from a b c d show ?thesis by (intro conjI)
qed

section \<open>The readiness guard over the life of the process\<close>

lemma run_append:
  "run env (xs @ ys) st =
     (case run env xs st of (outs1, st1) \<Rightarrow>
        (case run env ys st1 of (outs2, st2) \<Rightarrow> (outs1 @ outs2, st2)))"
  by (induction xs arbitrary: st) (simp_all split: prod.splits)

lemma step_answer:
  "fst (step env e st) = answer env (model st) (detections st) e"
proof (cases e)
  case (LoadFinished r)
  then show ?thesis by (cases r) (simp_all add: load_finished_def)
next
  case (DetectImage req)
  show ?thesis
  proof (cases "model st")
    case None
    with DetectImage show ?thesis by (simp add: detect_image_not_loaded not_ready_def)
  next
    case (Some m)
    with DetectImage show ?thesis by (simp add: detect_image_classified)
  qed
next
  case (Export students)
  then show ?thesis by (simp add: export_handler_text)
next
  case (History u)
  then show ?thesis by (simp add: history_handler_def)
qed

lemma step_keeps:
  assumes "\<not> is_load e"
  shows "model (snd (step env e st)) = model st"
    and "model st = None \<Longrightarrow> detections (snd (step env e st)) = detections st"
  using assms
  by (cases e; simp add: detect_image_model detect_image_not_loaded export_handler_def
      history_handler_def)+

lemma snd_run_append:
  "snd (run env (xs @ ys) st) = snd (run env ys (snd (run env xs st)))"
  by (simp add: run_append split: prod.splits)

lemma fst_run_append:
  "fst (run env (xs @ ys) st) = fst (run env xs st) @ fst (run env ys (snd (run env xs st)))"
  by (simp add: run_append split: prod.splits)

lemma length_fst_run: "length (fst (run env evs st)) = length evs"
  by (induction evs arbitrary: st) (simp_all add: fst_run_Cons del: run.simps(2))

lemma outcome_at:
  "fst (run env (pre @ e # post) st) ! length pre
     = answer env (model (snd (run env pre st))) (detections (snd (run env pre st))) e"
proof -
  have "fst (run env (pre @ e # post) st) ! length pre
      = fst (run env (e # post) (snd (run env pre st))) ! 0"
    by (simp add: fst_run_append nth_append length_fst_run del: run.simps)
  also have "\<dots> = fst (step env e (snd (run env pre st)))"
    by (simp add: fst_run_Cons del: run.simps)
  finally show ?thesis by (simp only: step_answer)
qed

lemma run_keeps:
  "list_all (\<lambda>e. \<not> is_load e) evs \<Longrightarrow>
   model (snd (run env evs st)) = model st
   \<and> (model st = None \<longrightarrow> detections (snd (run env evs st)) = detections st)"
proof (induction evs arbitrary: st)
  case Nil
  then show ?case by simp
next
  case (Cons e evs)
  then have e: "\<not> is_load e" and evs: "list_all (\<lambda>e. \<not> is_load e) evs" by simp_all
  let ?st' = "snd (step env e st)"
  from step_keeps[OF e, where env = env and st = st]
  have m: "model ?st' = model st"
    and d: "model st = None \<longrightarrow> detections ?st' = detections st" by simp_all
  from Cons.IH[OF evs, of ?st'] m d show ?case
    by (simp add: snd_run_Cons del: run.simps)
qed

lemma state_without_load:
  assumes "model st0 = None" and "list_all (\<lambda>e. \<not> is_load e) evs"
  shows "model (snd (run env evs st0)) = None"
    and "detections (snd (run env evs st0)) = detections st0"
  using run_keeps [OF assms(2), of env st0] assms(1) by simp_all

lemma state_after_load:
  assumes "model st0 = None"
      and "list_all (\<lambda>e. \<not> is_load e) before"
      and "list_all (\<lambda>e. \<not> is_load e) evs"
  shows "model (snd (run env (before @ LoadFinished r # evs) st0)) = r"
    and "r = None \<Longrightarrow>
         detections (snd (run env (before @ LoadFinished r # evs) st0)) = detections st0"
proof -
  let ?s1 = "snd (run env before st0)"
  let ?s2 = "snd (step env (LoadFinished r) ?s1)"
  have run: "snd (run env (before @ LoadFinished r # evs) st0) = snd (run env evs ?s2)"
    by (simp only: snd_run_append snd_run_Cons)
  from state_without_load [OF assms(1,2), where env = env]
  have m2: "model ?s2 = r" and d2: "detections ?s2 = detections st0"
    by (simp_all add: load_finished_def split: option.splits)
  from run_keeps [OF assms(3), of env ?s2] m2
  show "model (snd (run env (before @ LoadFinished r # evs) st0)) = r"
    by (simp only: run)
  assume "r = None"
  with run_keeps [OF assms(3), of env ?s2] m2 d2
  have "detections (snd (run env evs ?s2)) = detections st0" by simp
  then show "detections (snd (run env (before @ LoadFinished r # evs) st0)) = detections st0"
    by (simp only: run)
qed

lemma collection_across_load:
  assumes "model st0 = None" and "list_all (\<lambda>e. \<not> is_load e) before"
  shows "detections (snd (run env (before @ [LoadFinished r]) st0)) = detections st0"
proof -
  have "snd (run env (before @ [LoadFinished r]) st0)
      = snd (load_finished r (snd (run env before st0)))"
    by (simp add: snd_run_append snd_run_Cons del: run.simps(2))
  with state_without_load [OF assms, where env = env] show ?thesis
    by (simp add: load_finished_def split: option.splits)
qed

text \<open>
  Claim C4. The process starts with \<^verbatim>\<open>model = null\<close>; requests come in (\<open>before\<close>), the
  loader finishes once, with a model or with a failure (\<open>r\<close>), and more requests come in
  (\<open>after\<close>). Take any event \<open>e\<close> of this history, with \<open>pre\<close> the events ahead of it.
  \<^item> Up to the end of the load, and for ever after when the load failed, \<open>e\<close> is answered
    as with no model, over the collection the process started with: a classification call
    gets "Model not ready", the export gets the report and the history page gets the
    latest detections; and no detection has been appended once \<open>e\<close> is done.
  \<^item> After a successful load, \<open>e\<close> is answered as with the loaded model, over the
    collection of that moment; a classification call then gets what \<open>classified\<close> says
    (the decision on what \<^verbatim>\<open>model.predict\<close> returned, or the exception that ended the
    call), and never "Model not ready".
  \<^item> Once \<open>e\<close> is done, \<^verbatim>\<open>model\<close> is still \<^verbatim>\<open>null\<close> if the load has not finished, and
    is what the loader delivered otherwise: after a failed load it never becomes a model.
\<close>

theorem readiness_gating:
  assumes "model st0 = None"
      and "list_all (\<lambda>e. \<not> is_load e) before"
      and "list_all (\<lambda>e. \<not> is_load e) after"
      and "pre @ e # post = before @ LoadFinished r # after"
  shows "fst (run env (before @ LoadFinished r # after) st0) ! length pre =
           (if length pre \<le> length before \<or> r = None
            then answer env None (detections st0) e
            else answer env r (detections (snd (run env pre st0))) e)
       \<and> (length pre \<le> length before \<or> r = None \<longrightarrow>
            detections (snd (run env (pre @ [e]) st0)) = detections st0)
       \<and> model (snd (run env (pre @ [e]) st0))
           = (if length pre < length before then None else r)
       \<and> (\<forall>m req. length before < length pre \<and> r = Some m \<and> e = DetectImage req \<longrightarrow>
            fst (run env (before @ LoadFinished r # after) st0) ! length pre
              = classified env m req
          \<and> fst (run env (before @ LoadFinished r # after) st0) ! length pre
              \<noteq> Responded (Json_error 500 ''Model not ready''))"
proof -
  let ?L = "LoadFinished r"
  let ?out = "fst (run env (before @ ?L # after) st0) ! length pre"
  let ?s = "snd (run env pre st0)"
  let ?s' = "snd (run env (pre @ [e]) st0)"
  have out: "?out = answer env (model ?s) (detections ?s) e"
    using outcome_at [of env pre e post st0] by (simp only: assms(4))
  from assms(4) consider
      (A) us where "before = pre @ e # us"
    | (B) "pre = before" "e = ?L"
    | (C) pre' where "pre = before @ ?L # pre'" "after = pre' @ e # post"
    by (auto simp: append_eq_append_conv2 Cons_eq_append_conv append_eq_Cons_conv)
  then show ?thesis
  proof cases
    case A
    with assms(2) have lf: "list_all (\<lambda>e. \<not> is_load e) pre"
      "list_all (\<lambda>e. \<not> is_load e) (pre @ [e])" by simp_all
    from state_without_load [OF assms(1) lf(1), where env = env]
      state_without_load [OF assms(1) lf(2), where env = env] out A
    show ?thesis by simp
  next
    case B
    from state_without_load [OF assms(1,2), where env = env]
      state_after_load [OF assms(1,2), where evs = "[]" and env = env and r = r]
      collection_across_load [OF assms(1,2), where env = env and r = r] out B
    show ?thesis by simp
  next
    case C
    with assms(3) have lf: "list_all (\<lambda>e. \<not> is_load e) pre'"
      "list_all (\<lambda>e. \<not> is_load e) (pre' @ [e])" by simp_all
    have len: "length before < length pre" using C(1) by simp
    from state_after_load [OF assms(1,2) lf(1), where env = env and r = r] C(1)
    have s: "model ?s = r" "r = None \<Longrightarrow> detections ?s = detections st0" by simp_all
    from state_after_load [OF assms(1,2) lf(2), where env = env and r = r] C(1)
    have s': "model ?s' = r" "r = None \<Longrightarrow> detections ?s' = detections st0" by simp_all
    have o: "?out = (if r = None then answer env None (detections st0) e
        else answer env r (detections ?s) e)"
      using out s by simp
    have c: "\<forall>m req. r = Some m \<and> e = DetectImage req \<longrightarrow>
        ?out = classified env m req
        \<and> ?out \<noteq> Responded (Json_error 500 ''Model not ready'')"
    proof (intro allI impI)
      fix m req
      assume "r = Some m \<and> e = DetectImage req"
      with o have "?out = classified env m req" by simp
      moreover have "classified env m req \<noteq> Responded (Json_error 500 ''Model not ready'')"
        by (rule classified_not_turned_away)
      ultimately show "?out = classified env m req
          \<and> ?out \<noteq> Responded (Json_error 500 ''Model not ready'')"
        by simp
    qed
    have c1: "?out = (if length pre \<le> length before \<or> r = None
            then answer env None (detections st0) e
            else answer env r (detections ?s) e)"
      using o len by simp
    have c2: "length pre \<le> length before \<or> r = None \<longrightarrow>
            detections ?s' = detections st0"
      using s'(2) len by simp
    have c3: "model ?s' = (if length pre < length before then None else r)"
      using s'(1) len by simp
    have c4: "\<forall>m req. length before < length pre \<and> r = Some m \<and> e = DetectImage req \<longrightarrow>
        ?out = classified env m req
        \<and> ?out \<noteq> Responded (Json_error 500 ''Model not ready'')"
      using c by blast
    from c1 c2 c3 c4 show ?thesis by (intro conjI)
  qed
qed

text \<open>
  A call and an export, then the loader, then two calls (the second with an empty upload)
  and the history page, over a collection that holds one detection; once with a failed
  load and once with a successful one.
\<close>

theorem readiness_gating_witness:
  "model (init\<lparr>detections := [event_at ''S1'' True 2]\<rparr>) = None
   \<and> list_all (\<lambda>e. \<not> is_load e)
       [DetectImage (upload ''S1'' [2] 3), Export [pupil ''S1'' ''ann'']]
   \<and> list_all (\<lambda>e. \<not> is_load e)
       [DetectImage (upload ''S1'' [2] 4), DetectImage (upload ''S1'' [] 5), History ''S1'']
   \<and> fst (run stub_env
         ([DetectImage (upload ''S1'' [2] 3), Export [pupil ''S1'' ''ann'']]
          @ LoadFinished None # [DetectImage (upload ''S1'' [2] 4), DetectImage (upload ''S1'' [] 5), History ''S1''])
         (init\<lparr>detections := [event_at ''S1'' True 2]\<rparr>)) ! 0
       = Responded (Json_error 500 ''Model not ready'')
   \<and> fst (run stub_env
         ([DetectImage (upload ''S1'' [2] 3), Export [pupil ''S1'' ''ann'']]
          @ LoadFinished None # [DetectImage (upload ''S1'' [2] 4), DetectImage (upload ''S1'' [] 5), History ''S1''])
         (init\<lparr>detections := [event_at ''S1'' True 2]\<rparr>)) ! 1
       = Responded (Csv (
          ''Username,Email,Department,Year,Division,Uniform Status,Last Checked''
          @ [CHR 0x0A] @ [CHR 0x22] @ ''ann'' @ [CHR 0x22] @ '','' @ [CHR 0x22] @ ''e''
          @ [CHR 0x22] @ '','' @ [CHR 0x22] @ ''d'' @ [CHR 0x22] @ '','' @ [CHR 0x22]
          @ ''1'' @ [CHR 0x22] @ '','' @ [CHR 0x22] @ ''A'' @ [CHR 0x22] @ '',''
          @ [CHR 0x22] @ ''Uniform OK'' @ [CHR 0x22] @ '','' @ [CHR 0x22] @ ''early''
          @ [CHR 0x22] @ [CHR 0x0A]))
   \<and> fst (run stub_env
         ([DetectImage (upload ''S1'' [2] 3), Export [pupil ''S1'' ''ann'']]
          @ LoadFinished None # [DetectImage (upload ''S1'' [2] 4), DetectImage (upload ''S1'' [] 5), History ''S1''])
         (init\<lparr>detections := [event_at ''S1'' True 2]\<rparr>)) ! 3
       = Responded (Json_error 500 ''Model not ready'')
   \<and> fst (run stub_env
         ([DetectImage (upload ''S1'' [2] 3), Export [pupil ''S1'' ''ann'']]
          @ LoadFinished None # [DetectImage (upload ''S1'' [2] 4), DetectImage (upload ''S1'' [] 5), History ''S1''])
         (init\<lparr>detections := [event_at ''S1'' True 2]\<rparr>)) ! 5
       = Responded (History_page [event_at ''S1'' True 2])
   \<and> detections (snd (run stub_env
         ([DetectImage (upload ''S1'' [2] 3), Export [pupil ''S1'' ''ann'']]
          @ LoadFinished None # [DetectImage (upload ''S1'' [2] 4), DetectImage (upload ''S1'' [] 5), History ''S1''])
         (init\<lparr>detections := [event_at ''S1'' True 2]\<rparr>)))
       = [event_at ''S1'' True 2]
   \<and> fst (run stub_env
         ([DetectImage (upload ''S1'' [2] 3), Export [pupil ''S1'' ''ann'']]
          @ LoadFinished (Some 0) # [DetectImage (upload ''S1'' [2] 4), DetectImage (upload ''S1'' [] 5), History ''S1''])
         (init\<lparr>detections := [event_at ''S1'' True 2]\<rparr>)) ! 3
       = Responded (Json_result ''uniform'' (Some (Fin 0.91)))
   \<and> fst (run stub_env
         ([DetectImage (upload ''S1'' [2] 3), Export [pupil ''S1'' ''ann'']]
          @ LoadFinished (Some 0) # [DetectImage (upload ''S1'' [2] 4), DetectImage (upload ''S1'' [] 5), History ''S1''])
         (init\<lparr>detections := [event_at ''S1'' True 2]\<rparr>)) ! 4
       = Threw DecodeError
   \<and> fst (run stub_env
         ([DetectImage (upload ''S1'' [2] 3), Export [pupil ''S1'' ''ann'']]
          @ LoadFinished (Some 0) # [DetectImage (upload ''S1'' [2] 4), DetectImage (upload ''S1'' [] 5), History ''S1''])
         (init\<lparr>detections := [event_at ''S1'' True 2]\<rparr>)) ! 5
       = Responded (History_page
           [\<lparr>user = ''S1'', username = ''S1'', label = ''uniform'',
             confidence = Some (Fin 0.91), isCompliant = True, source = ''upload'',
             createdAt = 4\<rparr>,
            event_at ''S1'' True 2])"
proof -
  let ?st0 = "init\<lparr>detections := [event_at ''S1'' True 2]\<rparr>"
  let ?d3 = "DetectImage (upload ''S1'' [2] 3)" and ?x = "Export [pupil ''S1'' ''ann'']"
  let ?d4 = "DetectImage (upload ''S1'' [2] 4)" and ?d5 = "DetectImage (upload ''S1'' [] 5)"
  let ?h = "History ''S1''"
  let ?before = "[?d3, ?x]" and ?after = "[?d4, ?d5, ?h]"
  let ?F = "\<lambda>r. fst (run stub_env (?before @ LoadFinished r # ?after) ?st0)"
  have h1: "model ?st0 = None" by (simp add: init_def)
  have h2: "list_all (\<lambda>e. \<not> is_load e) ?before" by simp
  have h3: "list_all (\<lambda>e. \<not> is_load e) ?after" by simp
  have l0: "length ([] :: nat event list) = 0" by simp
  have l1: "length [?d3] = 1" by simp
  have l3: "\<And>r. length [?d3, ?x, LoadFinished r] = 3" by simp
  have l4: "\<And>r. length [?d3, ?x, LoadFinished r, ?d4] = 4" by simp
  have l5: "\<And>r. length [?d3, ?x, LoadFinished r, ?d4, ?d5] = 5" by simp
  have s0: "\<And>r. [] @ ?d3 # [?x, LoadFinished r, ?d4, ?d5, ?h]
      = ?before @ LoadFinished r # ?after" by simp
  have s1: "\<And>r. [?d3] @ ?x # [LoadFinished r, ?d4, ?d5, ?h]
      = ?before @ LoadFinished r # ?after" by simp
  have s3: "\<And>r. [?d3, ?x, LoadFinished r] @ ?d4 # [?d5, ?h]
      = ?before @ LoadFinished r # ?after" by simp
  have s4: "\<And>r. [?d3, ?x, LoadFinished r, ?d4] @ ?d5 # [?h]
      = ?before @ LoadFinished r # ?after" by simp
  have s5: "\<And>r. [?d3, ?x, LoadFinished r, ?d4, ?d5] @ ?h # []
      = ?before @ LoadFinished r # ?after" by simp
  note g0 = readiness_gating [OF h1 h2 h3 s0, where env = stub_env]
  note g1 = readiness_gating [OF h1 h2 h3 s1, where env = stub_env]
  note g3 = readiness_gating [OF h1 h2 h3 s3, where env = stub_env]
  note g4 = readiness_gating [OF h1 h2 h3 s4, where env = stub_env]
  note g5 = readiness_gating [OF h1 h2 h3 s5, where env = stub_env]
  have coll: "detections ?st0 = [event_at ''S1'' True 2]" by (simp add: init_def)
  have latest: "latestPerSubject stub_env [event_at ''S1'' True 2] ''S1''
      = Some \<lparr>g_id = ''S1'', lastIsCompliant = True, lastAt = 2\<rparr>"
    by (simp add: latest_is_first_delivered stub_env_def stable_desc_def summary_def)
  have d2: "dateToString stub_env 2 = ''early''" by (simp add: stub_env_def)
  have sd: "sort_desc stub_env = stable_desc" by (simp add: stub_env_def)
  have "?F None ! 0 = ?F None ! length ([] :: nat event list)" by (simp only: l0)
  also note g0 [of None, THEN conjunct1]
  also have "(if length ([] :: nat event list) \<le> length ?before \<or> None = None
        then answer stub_env None (detections ?st0) ?d3
        else answer stub_env None (detections (snd (run stub_env ([] :: nat event list) ?st0))) ?d3) = Responded (Json_error 500 ''Model not ready'')"
    by (simp add: coll)
  finally have a0: "?F None ! 0 = Responded (Json_error 500 ''Model not ready'')" .
  have "?F None ! 1 = ?F None ! length [?d3]" by (simp only: l1)
  also note g1 [of None, THEN conjunct1]
  also have "(if length [?d3] \<le> length ?before \<or> None = None
        then answer stub_env None (detections ?st0) ?x
        else answer stub_env None (detections (snd (run stub_env [?d3] ?st0))) ?x) = Responded (Csv (
          ''Username,Email,Department,Year,Division,Uniform Status,Last Checked''
          @ [CHR 0x0A] @ [CHR 0x22] @ ''ann'' @ [CHR 0x22] @ '','' @ [CHR 0x22] @ ''e''
          @ [CHR 0x22] @ '','' @ [CHR 0x22] @ ''d'' @ [CHR 0x22] @ '','' @ [CHR 0x22]
          @ ''1'' @ [CHR 0x22] @ '','' @ [CHR 0x22] @ ''A'' @ [CHR 0x22] @ '',''
          @ [CHR 0x22] @ ''Uniform OK'' @ [CHR 0x22] @ '','' @ [CHR 0x22] @ ''early''
          @ [CHR 0x22] @ [CHR 0x0A]))"
    by (simp add: coll report_text_def latest pupil_def d2)
  finally have a1: "?F None ! 1 = Responded (Csv (
          ''Username,Email,Department,Year,Division,Uniform Status,Last Checked''
          @ [CHR 0x0A] @ [CHR 0x22] @ ''ann'' @ [CHR 0x22] @ '','' @ [CHR 0x22] @ ''e''
          @ [CHR 0x22] @ '','' @ [CHR 0x22] @ ''d'' @ [CHR 0x22] @ '','' @ [CHR 0x22]
          @ ''1'' @ [CHR 0x22] @ '','' @ [CHR 0x22] @ ''A'' @ [CHR 0x22] @ '',''
          @ [CHR 0x22] @ ''Uniform OK'' @ [CHR 0x22] @ '','' @ [CHR 0x22] @ ''early''
          @ [CHR 0x22] @ [CHR 0x0A]))" .
  have "?F None ! 3 = ?F None ! length [?d3, ?x, LoadFinished None]" by (simp only: l3)
  also note g3 [of None, THEN conjunct1]
  also have "(if length [?d3, ?x, LoadFinished None] \<le> length ?before \<or> None = None
        then answer stub_env None (detections ?st0) ?d4
        else answer stub_env None (detections (snd (run stub_env [?d3, ?x, LoadFinished None] ?st0))) ?d4) = Responded (Json_error 500 ''Model not ready'')"
    by (simp add: coll)
  finally have a3: "?F None ! 3 = Responded (Json_error 500 ''Model not ready'')" .
  have "?F None ! 5 = ?F None ! length [?d3, ?x, LoadFinished None, ?d4, ?d5]" by (simp only: l5)
  also note g5 [of None, THEN conjunct1]
  also have "(if length [?d3, ?x, LoadFinished None, ?d4, ?d5] \<le> length ?before \<or> None = None
        then answer stub_env None (detections ?st0) ?h
        else answer stub_env None (detections (snd (run stub_env [?d3, ?x, LoadFinished None, ?d4, ?d5] ?st0))) ?h) = Responded (History_page [event_at ''S1'' True 2])"
    by (simp add: coll sd stable_desc_def)
  finally have a5: "?F None ! 5 = Responded (History_page [event_at ''S1'' True 2])" .
  have end_coll: "detections (snd (run stub_env (?before @ LoadFinished None # ?after) ?st0))
      = [event_at ''S1'' True 2]"
    using g5 [of None, THEN conjunct2, THEN conjunct1] by (simp add: coll)
  have at3: "detections (snd (run stub_env [?d3, ?x, LoadFinished (Some 0)] ?st0))
      = [event_at ''S1'' True 2]"
    by (simp add: snd_run_Cons handler_defs export_handler_def init_def del: run.simps(2))
  have at4: "detections (snd (run stub_env [?d3, ?x, LoadFinished (Some 0), ?d4] ?st0))
      = [event_at ''S1'' True 2,
         \<lparr>user = ''S1'', username = ''S1'', label = ''uniform'',
         confidence = Some (Fin 0.91), isCompliant = True, source = ''upload'',
         createdAt = 4\<rparr>]"
    by (simp add: snd_run_Cons handler_defs export_handler_def stub_defs decide_defs
        del: run.simps(2))
  have at5: "detections (snd (run stub_env [?d3, ?x, LoadFinished (Some 0), ?d4, ?d5] ?st0))
      = [event_at ''S1'' True 2,
         \<lparr>user = ''S1'', username = ''S1'', label = ''uniform'',
         confidence = Some (Fin 0.91), isCompliant = True, source = ''upload'',
         createdAt = 4\<rparr>]"
    by (simp add: snd_run_Cons handler_defs export_handler_def stub_defs decide_defs
        del: run.simps(2))
  have "?F (Some 0) ! 3 = ?F (Some 0) ! length [?d3, ?x, LoadFinished (Some 0)]" by (simp only: l3)
  also note g3 [of "Some 0", THEN conjunct1]
  also have "(if length [?d3, ?x, LoadFinished (Some 0)] \<le> length ?before \<or> (Some 0) = None
        then answer stub_env None (detections ?st0) ?d4
        else answer stub_env (Some 0) (detections (snd (run stub_env [?d3, ?x, LoadFinished (Some 0)] ?st0))) ?d4) = Responded (Json_result ''uniform'' (Some (Fin 0.91)))"
    by (simp only: at3) (simp add: classified_def stub_defs decide_defs)
  finally have b3: "?F (Some 0) ! 3 = Responded (Json_result ''uniform'' (Some (Fin 0.91)))" .
  have "?F (Some 0) ! 4 = ?F (Some 0) ! length [?d3, ?x, LoadFinished (Some 0), ?d4]" by (simp only: l4)
  also note g4 [of "Some 0", THEN conjunct1]
  also have "(if length [?d3, ?x, LoadFinished (Some 0), ?d4] \<le> length ?before \<or> (Some 0) = None
        then answer stub_env None (detections ?st0) ?d5
        else answer stub_env (Some 0) (detections (snd (run stub_env [?d3, ?x, LoadFinished (Some 0), ?d4] ?st0))) ?d5) = Threw DecodeError"
    by (simp only: at4) (simp add: classified_def stub_defs)
  finally have b4: "?F (Some 0) ! 4 = Threw DecodeError" .
  have "?F (Some 0) ! 5 = ?F (Some 0) ! length [?d3, ?x, LoadFinished (Some 0), ?d4, ?d5]" by (simp only: l5)
  also note g5 [of "Some 0", THEN conjunct1]
  also have "(if length [?d3, ?x, LoadFinished (Some 0), ?d4, ?d5] \<le> length ?before \<or> (Some 0) = None
        then answer stub_env None (detections ?st0) ?h
        else answer stub_env (Some 0) (detections (snd (run stub_env [?d3, ?x, LoadFinished (Some 0), ?d4, ?d5] ?st0))) ?h) = Responded (History_page
      [\<lparr>user = ''S1'', username = ''S1'', label = ''uniform'',
         confidence = Some (Fin 0.91), isCompliant = True, source = ''upload'',
         createdAt = 4\<rparr>,
       event_at ''S1'' True 2])"
    by (simp only: at5) (simp add: sd stable_desc_def event_at_def)
  finally have b5: "?F (Some 0) ! 5 = Responded (History_page
      [\<lparr>user = ''S1'', username = ''S1'', label = ''uniform'',
         confidence = Some (Fin 0.91), isCompliant = True, source = ''upload'',
         createdAt = 4\<rparr>,
       event_at ''S1'' True 2])" .
  from h1 h2 h3 a0 a1 a3 a5 end_coll b3 b4 b5 show ?thesis by (intro conjI)
qed

section \<open>Stored detections agree with their label\<close>

lemma step_appends:
  "\<exists>new. detections (snd (step env e st)) = detections st @ new \<and> list_all consistent new"
proof (cases e)
  case (DetectImage req)
  then show ?thesis using detect_image_appends by simp
qed (simp_all add: load_finished_def export_handler_def history_handler_def
      split: option.splits)

text \<open>
  Claim C7. Whatever happens in the process, from any state, the detection collection only
  grows at its end, and every detection appended has \<^verbatim>\<open>isCompliant\<close> true exactly when
  its label is "uniform".
\<close>

theorem appended_events_consistent:
  "\<exists>new. detections (snd (run env evs st)) = detections st @ new \<and> list_all consistent new"
proof (induction evs arbitrary: st)
  case Nil
  then show ?case by simp
next
  case (Cons e evs)
  obtain out st' where s: "step env e st = (out, st')" by (cases "step env e st")
  from step_appends[of env e st] s obtain n1 where
    n1: "detections st' = detections st @ n1" "list_all consistent n1" by auto
  from Cons.IH[of st'] obtain n2 where
    n2: "detections (snd (run env evs st')) = detections st' @ n2" "list_all consistent n2"
    by auto
  obtain outs st'' where r: "run env evs st' = (outs, st'')" by (cases "run env evs st'")
  from s r n1 n2 show ?case
    by (intro exI[of _ "n1 @ n2"]) simp
qed

text \<open>Two calls after a successful load, one judged compliant and one not.\<close>

theorem appended_events_consistent_witness:
  "list_all consistent (detections (snd (run stub_env
      [LoadFinished (Some 0), DetectImage (upload ''S1'' [2] 2),
       DetectImage (upload ''S1'' [3] 3)] init)))
   \<and> map label (detections (snd (run stub_env
      [LoadFinished (Some 0), DetectImage (upload ''S1'' [2] 2),
       DetectImage (upload ''S1'' [3] 3)] init))) = [''uniform'', ''not-uniform'']
   \<and> map isCompliant (detections (snd (run stub_env
      [LoadFinished (Some 0), DetectImage (upload ''S1'' [2] 2),
       DetectImage (upload ''S1'' [3] 3)] init))) = [True, False]"
proof -
  let ?evs = "[LoadFinished (Some 0), DetectImage (upload ''S1'' [2] 2),
       DetectImage (upload ''S1'' [3] 3)]"
  from appended_events_consistent [of stub_env ?evs init]
  have c: "list_all consistent (detections (snd (run stub_env ?evs init)))"
    by (auto simp: init_def simp del: run.simps(2))
  have v: "detections (snd (run stub_env ?evs init)) =
      [\<lparr>user = ''S1'', username = ''S1'', label = ''uniform'',
         confidence = Some (Fin 0.91), isCompliant = True, source = ''upload'',
         createdAt = 2\<rparr>,
       \<lparr>user = ''S1'', username = ''S1'', label = ''not-uniform'',
         confidence = Some (Fin 0.77), isCompliant = False, source = ''upload'',
         createdAt = 3\<rparr>]"
    by (simp add: snd_run_Cons handler_defs stub_defs decide_defs del: run.simps(2))
  from c show ?thesis by (simp only: v) simp
qed

end
